theory Spec2Isabelle
  imports Main "HOL-Library.Word"
begin

section \<open>Data model of \<open>read_table_cpp.h\<close>\<close>

text \<open>
  The error codes of \<open>enum read_table_errors\<close>, in the order of the source.
\<close>

datatype read_table_errors =
  T_OK | T_EOF | T_EOL | T_MISSING | T_FORMAT | T_OVERFLOW | T_NAN | T_TYPE
  | T_COPIED | T_ERROR_FOPEN | T_READ_ERROR

text \<open>
  \<open>struct line_parser\<close>: the line buffer, the scan position, the column
  counter and the configuration. \<open>size_t\<close> positions are natural numbers;
  \<open>delim\<close> and \<open>comment\<close> are characters, the NUL character
  meaning "not set", as in the source.
\<close>

record line_parser =
  buf :: string
  pos :: nat
  col :: nat
  base :: int
  last_error :: read_table_errors
  delim :: char
  comment :: char
  allow_nan_inf :: bool

text \<open>The value of \<open>errno\<close> after a conversion, as far as the source inspects it.\<close>

datatype errno = E_NONE | EINVAL | ERANGE

subsection \<open>Characters and scanning loops\<close>

definition NUL :: char where
  "NUL = CHR 0x00"

definition is_blank :: "char \<Rightarrow> bool" where
  "is_blank c \<longleftrightarrow> c = CHR '' '' \<or> c = CHR 0x09"

definition is_newline :: "char \<Rightarrow> bool" where
  "is_newline c \<longleftrightarrow> c = CHR 0x0A"

text \<open>
  \<open>buf[pos]\<close> on a \<open>std::string\<close>: the character at the index, and
  the terminating NUL at index \<open>size()\<close>. The source tests \<open>pos <
  len\<close> or \<open>pos == len\<close> before it reads; an index beyond
  \<open>size()\<close> reads as NUL here as well.
\<close>

definition char_at :: "string \<Rightarrow> nat \<Rightarrow> char" where
  "char_at s i = (if i < length s then s ! i else NUL)"

text \<open>
  The loop \<open>for(; pos < len; pos++) if(stop(buf[pos])) break;\<close> which the
  source writes with four different stop conditions. It returns the position at which the
  loop ends.
\<close>

function scan_until :: "(char \<Rightarrow> bool) \<Rightarrow> string \<Rightarrow> nat \<Rightarrow> nat" where
  "scan_until stop s p =
     (if p < length s then (if stop (s ! p) then p else scan_until stop s (Suc p)) else p)"
  by pat_completeness auto
termination
  by (relation "measure (\<lambda>(stop, s, p). length s - p)") auto

declare scan_until.simps [simp del]

definition not_blank :: "char \<Rightarrow> bool" where
  "not_blank c \<longleftrightarrow> \<not> is_blank c"

text \<open>
  The end-of-field test \<open>pos == len || buf[pos] == '\n' || (comment && buf[pos] ==
  comment)\<close>.
\<close>

definition at_line_end :: "line_parser \<Rightarrow> nat \<Rightarrow> bool" where
  "at_line_end lp p \<longleftrightarrow>
     p = length (buf lp) \<or> is_newline (char_at (buf lp) p)
     \<or> (comment lp \<noteq> NUL \<and> char_at (buf lp) p = comment lp)"

subsection \<open>The C library's integer conversions\<close>

text \<open>
  \<open>strtol\<close> and \<open>strtoul\<close> belong to the C library, not to the
  repository. They are modelled after the C standard (7.22.1.4) in the "C" locale, for a
  platform whose \<open>long\<close> has 64 bits (so that \<open>use_long\<close> and
  \<open>use_ulong\<close> of the source are true): leading white space, an optional sign,
  an optional \<open>0x\<close> prefix for base 16 or 0, then the longest run of digits of
  the base. The result is the value, the number of characters consumed (0: no conversion,
  \<open>c2\<close> is the start) and \<open>errno\<close>.
\<close>

definition char_code :: "char \<Rightarrow> nat" where
  "char_code c = of_char c"

definition isspace :: "char \<Rightarrow> bool" where
  "isspace c \<longleftrightarrow> c = CHR '' '' \<or> (9 \<le> char_code c \<and> char_code c \<le> 13)"

definition isdigit :: "char \<Rightarrow> bool" where
  "isdigit c \<longleftrightarrow> 48 \<le> char_code c \<and> char_code c \<le> 57"

definition isupper :: "char \<Rightarrow> bool" where
  "isupper c \<longleftrightarrow> 65 \<le> char_code c \<and> char_code c \<le> 90"

definition islower :: "char \<Rightarrow> bool" where
  "islower c \<longleftrightarrow> 97 \<le> char_code c \<and> char_code c \<le> 122"

definition isalnum :: "char \<Rightarrow> bool" where
  "isalnum c \<longleftrightarrow> isdigit c \<or> isupper c \<or> islower c"

definition digit_val :: "char \<Rightarrow> nat option" where
  "digit_val c =
     (if isdigit c then Some (char_code c - 48)
      else if isupper c then Some (char_code c - 55)
      else if islower c then Some (char_code c - 87)
      else None)"

definition is_digit_in :: "nat \<Rightarrow> char \<Rightarrow> bool" where
  "is_digit_in b c \<longleftrightarrow> (case digit_val c of Some d \<Rightarrow> d < b | None \<Rightarrow> False)"

text \<open>Accumulating the digits: the value so far and the number of digits read.\<close>

fun scan_digits :: "nat \<Rightarrow> string \<Rightarrow> nat \<Rightarrow> nat \<Rightarrow> nat \<times> nat" where
  "scan_digits b [] acc n = (acc, n)"
| "scan_digits b (c # cs) acc n =
     (case digit_val c of
        Some d \<Rightarrow> if d < b then scan_digits b cs (acc * b + d) (Suc n) else (acc, n)
      | None \<Rightarrow> (acc, n))"

definition sign_of :: "string \<Rightarrow> bool \<times> nat" where
  "sign_of s =
     (case s of
        [] \<Rightarrow> (False, 0)
      | c # _ \<Rightarrow> if c = CHR ''-'' then (True, 1) else if c = CHR ''+'' then (False, 1)
                 else (False, 0))"

definition hex_prefix :: "string \<Rightarrow> bool" where
  "hex_prefix s =
     (case s of
        z # x # h # _ \<Rightarrow> z = CHR ''0'' \<and> (x = CHR ''x'' \<or> x = CHR ''X'') \<and> is_digit_in 16 h
      | _ \<Rightarrow> False)"

definition leading_zero :: "string \<Rightarrow> bool" where
  "leading_zero s = (case s of [] \<Rightarrow> False | z # _ \<Rightarrow> z = CHR ''0'')"

text \<open>
  The subject sequence: whether it is negative, its magnitude and the number of characters
  consumed, white space, sign and prefix included. The base is 0 or between 2 and 36.
\<close>

definition strto_scan :: "string \<Rightarrow> nat \<Rightarrow> bool \<times> nat \<times> nat" where
  "strto_scan s b =
     (let ws = length (takeWhile isspace s);
          s1 = drop ws s;
          (neg, sl) = sign_of s1;
          s2 = drop sl s1;
          b' = (if b = 0 then (if hex_prefix s2 then 16 else if leading_zero s2 then 8 else 10)
                else b);
          pl = (if (b = 0 \<or> b = 16) \<and> hex_prefix s2 then 2 else 0);
          (m, n) = scan_digits b' (drop pl s2) 0 0
      in if n = 0 then (False, 0, 0) else (neg, m, ws + sl + pl + n))"

definition LONG_MAX :: int where
  "LONG_MAX = 2 ^ 63 - 1"

definition LONG_MIN :: int where
  "LONG_MIN = - (2 ^ 63)"

definition ULONG_MAX :: int where
  "ULONG_MAX = 2 ^ 64 - 1"

definition bad_base :: "int \<Rightarrow> bool" where
  "bad_base b \<longleftrightarrow> b < 0 \<or> b = 1 \<or> 36 < b"

definition strtol :: "string \<Rightarrow> int \<Rightarrow> int \<times> nat \<times> errno" where
  "strtol s b =
     (if bad_base b then (0, 0, EINVAL)
      else case strto_scan s (nat b) of (neg, m, n) \<Rightarrow>
        if n = 0 then (0, 0, E_NONE)
        else let v = (if neg then - int m else int m) in
          if LONG_MAX < v then (LONG_MAX, n, ERANGE)
          else if v < LONG_MIN then (LONG_MIN, n, ERANGE)
          else (v, n, E_NONE))"

definition strtoul :: "string \<Rightarrow> int \<Rightarrow> int \<times> nat \<times> errno" where
  "strtoul s b =
     (if bad_base b then (0, 0, EINVAL)
      else case strto_scan s (nat b) of (neg, m, n) \<Rightarrow>
        if n = 0 then (0, 0, E_NONE)
        else if ULONG_MAX < int m then (ULONG_MAX, n, ERANGE)
        else ((if neg then (- int m) mod 2 ^ 64 else int m), n, E_NONE))"

text \<open>
  \<open>buf.c_str() + pos\<close>: the C string that starts at \<open>pos\<close> ends at
  the first NUL character or at the end of the buffer.
\<close>

definition c_str_from :: "string \<Rightarrow> nat \<Rightarrow> string" where
  "c_str_from s p = takeWhile (\<lambda>c. c \<noteq> NUL) (drop p s)"

section \<open>The field cursor\<close>

subsection \<open>Pre-check and post-check\<close>

definition blocked :: "read_table_errors \<Rightarrow> bool" where
  "blocked e \<longleftrightarrow>
     e = T_EOF \<or> e = T_EOL \<or> e = T_COPIED \<or> e = T_READ_ERROR \<or> e = T_ERROR_FOPEN"

text \<open>\<open>line_parser::read_table_pre_check\<close>: the result and the cursor afterwards.\<close>

definition read_table_pre_check :: "line_parser \<Rightarrow> bool \<Rightarrow> bool \<times> line_parser" where
  "read_table_pre_check lp advance_pos =
     (if blocked (last_error lp) then (False, lp)
      else
        let old_pos = pos lp;
            lp1 = lp\<lparr>pos := scan_until not_blank (buf lp) (pos lp)\<rparr>
        in if at_line_end lp1 (pos lp1) then
             (False, (if \<not> advance_pos then lp1\<lparr>last_error := T_EOL, pos := old_pos\<rparr>
                      else lp1\<lparr>last_error := T_EOL\<rparr>))
           else if delim lp1 \<noteq> NUL \<and> char_at (buf lp1) (pos lp1) = delim lp1 then
             (False, (if \<not> advance_pos then lp1\<lparr>last_error := T_MISSING, pos := old_pos\<rparr>
                      else lp1\<lparr>last_error := T_MISSING\<rparr>))
           else (True, lp1))"

text \<open>
  \<open>line_parser::read_table_post_check\<close>. The arguments are
  \<open>errno\<close> and the offset of \<open>c2\<close> in the buffer; \<open>c2 ==
  buf.c_str() + pos\<close> is \<open>c2 = pos lp\<close>. The flag
  \<open>have_blank\<close> of the source is true exactly when the loop moved past
  \<open>c2\<close>.
\<close>

definition read_table_post_check :: "line_parser \<Rightarrow> errno \<Rightarrow> nat \<Rightarrow> bool \<times> line_parser" where
  "read_table_post_check lp e c2 =
     (if e = EINVAL \<or> c2 = pos lp then (False, lp\<lparr>last_error := T_FORMAT\<rparr>)
      else if e = ERANGE then (False, lp\<lparr>last_error := T_OVERFLOW\<rparr>)
      else
        let p = scan_until not_blank (buf lp) c2;
            have_blank = (c2 < p);
            lp1 = lp\<lparr>pos := p, last_error := T_OK\<rparr>
        in if at_line_end lp1 p then (True, lp1)
           else if delim lp1 = NUL \<and> \<not> have_blank then (False, lp1\<lparr>last_error := T_FORMAT\<rparr>)
           else if delim lp1 \<noteq> NUL then
             (if char_at (buf lp1) p \<noteq> delim lp1 then (False, lp1\<lparr>last_error := T_FORMAT\<rparr>)
              else (True, lp1\<lparr>pos := Suc p, col := Suc (col lp1)\<rparr>))
           else (True, lp1\<lparr>col := Suc (col lp1)\<rparr>))"

text \<open>The closing statement \<open>if(!advance_pos) pos = old_pos;\<close> of the typed reads.\<close>

definition restore_pos :: "bool \<Rightarrow> nat \<Rightarrow> line_parser \<Rightarrow> line_parser" where
  "restore_pos advance_pos old_pos lp = (if \<not> advance_pos then lp\<lparr>pos := old_pos\<rparr> else lp)"

subsection \<open>Integer reads\<close>

text \<open>
  Every read returns the boolean result, the value written to the output reference
  (\<open>None\<close>: the output was not written and keeps what it held) and the cursor
  afterwards.  \<open>read_int32_limits\<close> and, with \<open>use_long\<close>,
  \<open>read_int64_limits\<close> have the same body; only the width of the output and of
  the bounds differs, so the body is written once for any width. \<open>(long)max\<close>
  is \<open>sint mx\<close>, and \<open>i = res\<close> stores a value that lies between
  the bounds.
\<close>

definition read_long_limits ::
  "line_parser \<Rightarrow> 'a::len word \<Rightarrow> 'a word \<Rightarrow> bool \<Rightarrow> bool \<times> 'a word option \<times> line_parser" where
  "read_long_limits lp mn mx advance_pos =
     (let old_pos = pos lp in
      case read_table_pre_check lp advance_pos of
        (False, lp1) \<Rightarrow> (False, None, lp1)
      | (True, lp1) \<Rightarrow>
          (case strtol (c_str_from (buf lp1) (pos lp1)) (base lp1) of (res, n, e) \<Rightarrow>
             (case read_table_post_check lp1 e (pos lp1 + n) of
                (False, lp2) \<Rightarrow> (False, None, restore_pos advance_pos old_pos lp2)
              | (True, lp2) \<Rightarrow>
                  if sint mx < res \<or> res < sint mn then
                    (False, Some (if res < sint mn then mn else mx),
                     restore_pos advance_pos old_pos (lp2\<lparr>last_error := T_OVERFLOW\<rparr>))
                  else (True, Some (word_of_int res), restore_pos advance_pos old_pos lp2))))"

definition read_int32_limits ::
  "line_parser \<Rightarrow> 32 word \<Rightarrow> 32 word \<Rightarrow> bool \<Rightarrow> bool \<times> 32 word option \<times> line_parser" where
  "read_int32_limits = read_long_limits"

definition read_int64_limits ::
  "line_parser \<Rightarrow> 64 word \<Rightarrow> 64 word \<Rightarrow> bool \<Rightarrow> bool \<times> 64 word option \<times> line_parser" where
  "read_int64_limits = read_long_limits"

text \<open>
  \<open>read_uint32_limits\<close> and, with \<open>use_ulong\<close>,
  \<open>read_uint64_limits\<close>: the first character must be alphanumeric or
  \<open>+\<close>; otherwise the output is set to 0 and no conversion is tried.
\<close>

definition read_ulong_limits ::
  "line_parser \<Rightarrow> 'a::len word \<Rightarrow> 'a word \<Rightarrow> bool \<Rightarrow> bool \<times> 'a word option \<times> line_parser" where
  "read_ulong_limits lp mn mx advance_pos =
     (let old_pos = pos lp in
      case read_table_pre_check lp advance_pos of
        (False, lp1) \<Rightarrow> (False, None, lp1)
      | (True, lp1) \<Rightarrow>
          let c = char_at (buf lp1) (pos lp1) in
          if \<not> (isalnum c \<or> c = CHR ''+'') then
            (False, Some 0,
             restore_pos advance_pos old_pos
               (lp1\<lparr>last_error := (if c = CHR ''-'' then T_OVERFLOW else T_FORMAT)\<rparr>))
          else
            (case strtoul (c_str_from (buf lp1) (pos lp1)) (base lp1) of (res, n, e) \<Rightarrow>
               (case read_table_post_check lp1 e (pos lp1 + n) of
                  (False, lp2) \<Rightarrow> (False, None, restore_pos advance_pos old_pos lp2)
                | (True, lp2) \<Rightarrow>
                    if uint mx < res \<or> res < uint mn then
                      (False, Some (if res < uint mn then mn else mx),
                       restore_pos advance_pos old_pos (lp2\<lparr>last_error := T_OVERFLOW\<rparr>))
                    else (True, Some (word_of_int res), restore_pos advance_pos old_pos lp2))))"

definition read_uint32_limits ::
  "line_parser \<Rightarrow> 32 word \<Rightarrow> 32 word \<Rightarrow> bool \<Rightarrow> bool \<times> 32 word option \<times> line_parser" where
  "read_uint32_limits = read_ulong_limits"

definition read_uint64_limits ::
  "line_parser \<Rightarrow> 64 word \<Rightarrow> 64 word \<Rightarrow> bool \<Rightarrow> bool \<times> 64 word option \<times> line_parser" where
  "read_uint64_limits = read_ulong_limits"

text \<open>
  The 16-bit reads call the 32-bit ones with the bounds widened
  (\<open>(int32_t)min\<close> is a sign extension, \<open>(uint32_t)min\<close> a zero
  extension) and copy the result only on success.
\<close>

definition read_int16_limits ::
  "line_parser \<Rightarrow> 16 word \<Rightarrow> 16 word \<Rightarrow> bool \<Rightarrow> bool \<times> 16 word option \<times> line_parser" where
  "read_int16_limits lp mn mx advance_pos =
     (case read_int32_limits lp (scast mn) (scast mx) advance_pos of
        (ret, i2, lp1) \<Rightarrow>
          (ret, (if ret then map_option ucast i2 else None), lp1))"

definition read_uint16_limits ::
  "line_parser \<Rightarrow> 16 word \<Rightarrow> 16 word \<Rightarrow> bool \<Rightarrow> bool \<times> 16 word option \<times> line_parser" where
  "read_uint16_limits lp mn mx advance_pos =
     (case read_uint32_limits lp (ucast mn) (ucast mx) advance_pos of
        (ret, i2, lp1) \<Rightarrow>
          (ret, (if ret then map_option ucast i2 else None), lp1))"

text \<open>The reads without bounds pass the limits of the type.\<close>

definition INT16_MIN :: "16 word" where "INT16_MIN = 0x8000"
definition INT16_MAX :: "16 word" where "INT16_MAX = 0x7FFF"
definition UINT16_MAX :: "16 word" where "UINT16_MAX = 0xFFFF"
definition INT32_MIN :: "32 word" where "INT32_MIN = 0x80000000"
definition INT32_MAX :: "32 word" where "INT32_MAX = 0x7FFFFFFF"
definition UINT32_MAX :: "32 word" where "UINT32_MAX = 0xFFFFFFFF"
definition INT64_MIN :: "64 word" where "INT64_MIN = 0x8000000000000000"
definition INT64_MAX :: "64 word" where "INT64_MAX = 0x7FFFFFFFFFFFFFFF"
definition UINT64_MAX :: "64 word" where "UINT64_MAX = 0xFFFFFFFFFFFFFFFF"

definition read_int32 :: "line_parser \<Rightarrow> bool \<Rightarrow> bool \<times> 32 word option \<times> line_parser" where
  "read_int32 lp advance_pos = read_int32_limits lp INT32_MIN INT32_MAX advance_pos"

definition read_uint32 :: "line_parser \<Rightarrow> bool \<Rightarrow> bool \<times> 32 word option \<times> line_parser" where
  "read_uint32 lp advance_pos = read_uint32_limits lp 0 UINT32_MAX advance_pos"

definition read_int64 :: "line_parser \<Rightarrow> bool \<Rightarrow> bool \<times> 64 word option \<times> line_parser" where
  "read_int64 lp advance_pos = read_int64_limits lp INT64_MIN INT64_MAX advance_pos"

definition read_uint64 :: "line_parser \<Rightarrow> bool \<Rightarrow> bool \<times> 64 word option \<times> line_parser" where
  "read_uint64 lp advance_pos = read_uint64_limits lp 0 UINT64_MAX advance_pos"

definition read_int16 :: "line_parser \<Rightarrow> bool \<Rightarrow> bool \<times> 16 word option \<times> line_parser" where
  "read_int16 lp advance_pos = read_int16_limits lp INT16_MIN INT16_MAX advance_pos"

definition read_uint16 :: "line_parser \<Rightarrow> bool \<Rightarrow> bool \<times> 16 word option \<times> line_parser" where
  "read_uint16 lp advance_pos = read_uint16_limits lp 0 UINT16_MAX advance_pos"

subsection \<open>Floating-point reads\<close>

text \<open>
  \<open>strtod\<close>, \<open>std::isnan\<close>, \<open>std::isinf\<close> and the
  comparison of doubles are not modelled: they are parameters, over any type
  \<open>'d\<close> of double values. \<open>strtod\<close> returns the value, the number
  of characters consumed and \<open>errno\<close>, as the integer conversions do.
\<close>

record 'd libm =
  strtod :: "string \<Rightarrow> 'd \<times> nat \<times> errno"
  isnan :: "'d \<Rightarrow> bool"
  isinf :: "'d \<Rightarrow> bool"
  le_double :: "'d \<Rightarrow> 'd \<Rightarrow> bool"

text \<open>\<open>read_double\<close> stores the converted value before any check of it.\<close>

definition read_double ::
  "'d libm \<Rightarrow> line_parser \<Rightarrow> bool \<Rightarrow> bool \<times> 'd option \<times> line_parser" where
  "read_double L lp advance_pos =
     (let old_pos = pos lp in
      case read_table_pre_check lp advance_pos of
        (False, lp1) \<Rightarrow> (False, None, lp1)
      | (True, lp1) \<Rightarrow>
          (case strtod L (c_str_from (buf lp1) (pos lp1)) of (d, n, e) \<Rightarrow>
             (case read_table_post_check lp1 e (pos lp1 + n) of (ret, lp2) \<Rightarrow>
                if ret \<and> \<not> allow_nan_inf lp2 \<and> (isnan L d \<or> isinf L d) then
                  (False, Some d, restore_pos advance_pos old_pos (lp2\<lparr>last_error := T_NAN\<rparr>))
                else (ret, Some d, restore_pos advance_pos old_pos lp2))))"

definition read_double_limits ::
  "'d libm \<Rightarrow> line_parser \<Rightarrow> 'd \<Rightarrow> 'd \<Rightarrow> bool \<Rightarrow> bool \<times> 'd option \<times> line_parser" where
  "read_double_limits L lp mn mx advance_pos =
     (let old_pos = pos lp in
      case read_table_pre_check lp advance_pos of
        (False, lp1) \<Rightarrow> (False, None, lp1)
      | (True, lp1) \<Rightarrow>
          (case strtod L (c_str_from (buf lp1) (pos lp1)) of (d, n, e) \<Rightarrow>
             (case read_table_post_check lp1 e (pos lp1 + n) of (ret, lp2) \<Rightarrow>
                if ret then
                  (if isnan L d then
                     (False, Some d, restore_pos advance_pos old_pos (lp2\<lparr>last_error := T_NAN\<rparr>))
                   else if \<not> (le_double L d mx \<and> le_double L mn d) then
                     (False, Some d,
                      restore_pos advance_pos old_pos (lp2\<lparr>last_error := T_OVERFLOW\<rparr>))
                   else (True, Some d, restore_pos advance_pos old_pos lp2))
                else (False, Some d, restore_pos advance_pos old_pos lp2))))"

subsection \<open>Skipping a field and reading a string\<close>

definition is_delim :: "line_parser \<Rightarrow> char \<Rightarrow> bool" where
  "is_delim lp c \<longleftrightarrow> c = delim lp"

definition field_end :: "line_parser \<Rightarrow> char \<Rightarrow> bool" where
  "field_end lp c \<longleftrightarrow>
     is_blank c \<or> is_newline c \<or> (comment lp \<noteq> NUL \<and> c = comment lp)"

definition delim_field_end :: "line_parser \<Rightarrow> char \<Rightarrow> bool" where
  "delim_field_end lp c \<longleftrightarrow>
     c = delim lp \<or> is_newline c \<or> (comment lp \<noteq> NUL \<and> c = comment lp)"

text \<open>\<open>line_parser::read_skip\<close>. It does not look at \<open>last_error\<close> before it scans.\<close>

definition read_skip :: "line_parser \<Rightarrow> bool \<times> line_parser" where
  "read_skip lp =
     (let len = length (buf lp) in
      if delim lp \<noteq> NUL then
        (let p = scan_until (is_delim lp) (buf lp) (pos lp) in
         if p = len then (False, lp\<lparr>pos := p, last_error := T_EOL\<rparr>)
         else (True, lp\<lparr>pos := Suc p, col := Suc (col lp), last_error := T_OK\<rparr>))
      else
        (let p = scan_until not_blank (buf lp) (pos lp) in
         if at_line_end lp p then (False, lp\<lparr>pos := p, last_error := T_EOL\<rparr>)
         else
           (True, lp\<lparr>pos := scan_until (field_end lp) (buf lp) p,
                     col := Suc (col lp), last_error := T_OK\<rparr>)))"

text \<open>
  \<open>line_parser::read_string2\<close>: the result, the pair \<open>pos1\<close>
  (start and length of the field, written only when the read succeeds) and the cursor
  afterwards.
\<close>

definition read_string2 ::
  "line_parser \<Rightarrow> bool \<Rightarrow> bool \<times> (nat \<times> nat) option \<times> line_parser" where
  "read_string2 lp advance_pos =
     (let len = length (buf lp); old_pos = pos lp in
      if delim lp \<noteq> NUL then
        (if last_error lp = T_EOF \<or> last_error lp = T_EOL
            \<or> last_error lp = T_READ_ERROR \<or> last_error lp = T_ERROR_FOPEN
         then (False, None, lp)
         else
           let p1 = pos lp;
               p = scan_until (delim_field_end lp) (buf lp) (pos lp);
               lp1 = (if p < len \<and> char_at (buf lp) p = delim lp then lp\<lparr>pos := Suc p\<rparr>
                      else lp\<lparr>pos := p, last_error := T_EOL\<rparr>)
           in (True, Some (p1, p - p1), restore_pos advance_pos old_pos lp1))
      else
        (case read_table_pre_check lp advance_pos of
           (False, lp1) \<Rightarrow> (False, None, lp1)
         | (True, lp1) \<Rightarrow>
             let p1 = pos lp1;
                 p = scan_until (field_end lp1) (buf lp1) p1
             in (True, Some (p1, p - p1), restore_pos advance_pos old_pos (lp1\<lparr>pos := p\<rparr>))))"

text \<open>
  \<open>read_string\<close> copies the field (\<open>str.assign(buf, first,
  second)\<close>); \<open>read_string_view\<close> and
  \<open>read_string_view_custom\<close> return the start and the length of the field in
  the buffer.
\<close>

definition read_string :: "line_parser \<Rightarrow> bool \<Rightarrow> bool \<times> string option \<times> line_parser" where
  "read_string lp advance_pos =
     (case read_string2 lp advance_pos of
        (False, _, lp1) \<Rightarrow> (False, None, lp1)
      | (True, pos1, lp1) \<Rightarrow>
          (True, map_option (\<lambda>(first, second). take second (drop first (buf lp1))) pos1, lp1))"

definition read_string_view ::
  "line_parser \<Rightarrow> bool \<Rightarrow> bool \<times> (nat \<times> nat) option \<times> line_parser" where
  "read_string_view lp advance_pos =
     (case read_string2 lp advance_pos of
        (False, _, lp1) \<Rightarrow> (False, None, lp1)
      | (True, pos1, lp1) \<Rightarrow> (True, pos1, lp1))"

section \<open>Dispatch on the type and the variadic read\<close>

text \<open>
  The specialisations of \<open>read_next\<close> are one constructor each: a plain output
  of a type, or a \<open>read_bounds_t\<close> of that type with its two bounds. The value
  written to the output is tagged with its type.
\<close>

datatype 'd read_op =
    Int32 | UInt32 | Int16 | UInt16 | Int64 | UInt64 | Double | Coords
  | String | String_view | Skip
  | Int32_bounds "32 word" "32 word" | UInt32_bounds "32 word" "32 word"
  | Int64_bounds "64 word" "64 word" | UInt64_bounds "64 word" "64 word"
  | Int16_bounds "16 word" "16 word" | UInt16_bounds "16 word" "16 word"
  | Double_bounds 'd 'd | Coords_bounds "'d \<times> 'd" "'d \<times> 'd"

datatype 'd out_value =
    Out16 "16 word" | Out32 "32 word" | Out64 "64 word" | Out_double 'd
  | Out_coords "'d \<times> 'd" | Out_string string | Out_view "nat \<times> nat"

definition tagged ::
  "('a \<Rightarrow> 'd out_value) \<Rightarrow> bool \<times> 'a option \<times> line_parser
     \<Rightarrow> bool \<times> 'd out_value option \<times> line_parser" where
  "tagged f r = (case r of (ret, v, lp) \<Rightarrow> (ret, map_option f v, lp))"

text \<open>
  The two specialisations for pairs of doubles: both reads advance, the pair is stored only
  when both succeed, and the position is restored afterwards for a non-advancing read.
\<close>

definition read_coords ::
  "'d libm \<Rightarrow> line_parser \<Rightarrow> bool \<Rightarrow> bool \<times> ('d \<times> 'd) option \<times> line_parser" where
  "read_coords L lp advance_pos =
     (let old_pos = pos lp in
      case read_double L lp True of
        (False, _, lp1) \<Rightarrow> (False, None, restore_pos advance_pos old_pos lp1)
      | (True, x, lp1) \<Rightarrow>
          (case read_double L lp1 True of
             (False, _, lp2) \<Rightarrow> (False, None, restore_pos advance_pos old_pos lp2)
           | (True, y, lp2) \<Rightarrow>
               (True, Some (the x, the y), restore_pos advance_pos old_pos lp2)))"

definition read_coords_bounds ::
  "'d libm \<Rightarrow> line_parser \<Rightarrow> 'd \<times> 'd \<Rightarrow> 'd \<times> 'd \<Rightarrow> bool
     \<Rightarrow> bool \<times> ('d \<times> 'd) option \<times> line_parser" where
  "read_coords_bounds L lp mn mx advance_pos =
     (let old_pos = pos lp in
      case read_double_limits L lp (fst mn) (fst mx) True of
        (False, _, lp1) \<Rightarrow> (False, None, restore_pos advance_pos old_pos lp1)
      | (True, x, lp1) \<Rightarrow>
          (case read_double_limits L lp1 (snd mn) (snd mx) True of
             (False, _, lp2) \<Rightarrow> (False, None, restore_pos advance_pos old_pos lp2)
           | (True, y, lp2) \<Rightarrow>
               (True, Some (the x, the y), restore_pos advance_pos old_pos lp2)))"

text \<open>
  \<open>line_parser::read_next\<close>. The specialisation for
  \<open>read_table_skip_t\<close> calls \<open>read_skip()\<close> and does not use
  \<open>advance_pos\<close>.
\<close>

fun read_next ::
  "'d libm \<Rightarrow> line_parser \<Rightarrow> 'd read_op \<Rightarrow> bool \<Rightarrow> bool \<times> 'd out_value option \<times> line_parser" where
  "read_next L lp Int32 adv = tagged Out32 (read_int32 lp adv)"
| "read_next L lp UInt32 adv = tagged Out32 (read_uint32 lp adv)"
| "read_next L lp Int16 adv = tagged Out16 (read_int16 lp adv)"
| "read_next L lp UInt16 adv = tagged Out16 (read_uint16 lp adv)"
| "read_next L lp Int64 adv = tagged Out64 (read_int64 lp adv)"
| "read_next L lp UInt64 adv = tagged Out64 (read_uint64 lp adv)"
| "read_next L lp Double adv = tagged Out_double (read_double L lp adv)"
| "read_next L lp Coords adv = tagged Out_coords (read_coords L lp adv)"
| "read_next L lp String adv = tagged Out_string (read_string lp adv)"
| "read_next L lp String_view adv = tagged Out_view (read_string_view lp adv)"
| "read_next L lp Skip adv = (case read_skip lp of (ret, lp1) \<Rightarrow> (ret, None, lp1))"
| "read_next L lp (Int32_bounds mn mx) adv = tagged Out32 (read_int32_limits lp mn mx adv)"
| "read_next L lp (UInt32_bounds mn mx) adv = tagged Out32 (read_uint32_limits lp mn mx adv)"
| "read_next L lp (Int64_bounds mn mx) adv = tagged Out64 (read_int64_limits lp mn mx adv)"
| "read_next L lp (UInt64_bounds mn mx) adv = tagged Out64 (read_uint64_limits lp mn mx adv)"
| "read_next L lp (Int16_bounds mn mx) adv = tagged Out16 (read_int16_limits lp mn mx adv)"
| "read_next L lp (UInt16_bounds mn mx) adv = tagged Out16 (read_uint16_limits lp mn mx adv)"
| "read_next L lp (Double_bounds mn mx) adv =
     tagged Out_double (read_double_limits L lp mn mx adv)"
| "read_next L lp (Coords_bounds mn mx) adv =
     tagged Out_coords (read_coords_bounds L lp mn mx adv)"

text \<open>
  The variadic \<open>line_parser::read\<close>: \<open>read()\<close> is true, and
  \<open>read(val, vals...)\<close> returns false when \<open>read_next(val, true)\<close>
  fails and \<open>read(vals...)\<close> otherwise. The list holds, for each operation
  that was called, what it wrote to its output.
\<close>

fun read ::
  "'d libm \<Rightarrow> line_parser \<Rightarrow> 'd read_op list
     \<Rightarrow> bool \<times> 'd out_value option list \<times> line_parser" where
  "read L lp [] = (True, [], lp)"
| "read L lp (val # vals) =
     (case read_next L lp val True of
        (False, v, lp1) \<Rightarrow> (False, [v], lp1)
      | (True, v, lp1) \<Rightarrow> (case read L lp1 vals of (ret, vs, lp2) \<Rightarrow> (ret, v # vs, lp2)))"

section \<open>Construction, moves and lines\<close>

text \<open>\<open>line_parser_params()\<close> and the constructor of a \<open>line_parser\<close> from a string.\<close>

definition line_parser_of :: "string \<Rightarrow> line_parser" where
  "line_parser_of s =
     \<lparr>buf = s, pos = 0, col = 0, base = 10, last_error = T_OK, delim = NUL, comment = NUL,
      allow_nan_inf = True\<rparr>"

definition set_delim :: "line_parser \<Rightarrow> char \<Rightarrow> line_parser" where
  "set_delim lp delim' = lp\<lparr>delim := delim'\<rparr>"

definition set_comment :: "line_parser \<Rightarrow> char \<Rightarrow> line_parser" where
  "set_comment lp comment' = lp\<lparr>comment := comment'\<rparr>"

text \<open>
  The move constructor and the move assignment return the destination and the source as
  they are afterwards. A moved-from \<open>std::string\<close> holds some valid content,
  the argument \<open>residue\<close>. The move constructor assigns no value to the member
  \<open>delim\<close>, which has no default initialiser either: the destination holds an
  indeterminate character, the argument \<open>indet\<close>. The move assignment is
  modelled for two distinct objects.
\<close>

definition move_construct :: "line_parser \<Rightarrow> char \<Rightarrow> string \<Rightarrow> line_parser \<times> line_parser" where
  "move_construct lp indet residue =
     (\<lparr>buf = buf lp, pos = pos lp, col = col lp, base = base lp, last_error = last_error lp,
       delim = indet, comment = comment lp, allow_nan_inf = allow_nan_inf lp\<rparr>,
      lp\<lparr>buf := residue, last_error := T_COPIED, pos := 0, col := 0\<rparr>)"

definition move_assign ::
  "line_parser \<Rightarrow> line_parser \<Rightarrow> string \<Rightarrow> line_parser \<times> line_parser" where
  "move_assign this lp residue =
     (this\<lparr>buf := buf lp, pos := pos lp, col := col lp, base := base lp,
           comment := comment lp, allow_nan_inf := allow_nan_inf lp,
           last_error := last_error lp\<rparr>,
      lp\<lparr>buf := residue, last_error := T_COPIED, pos := 0, col := 0\<rparr>)"

text \<open>
  The input stream of a \<open>read_table2\<close>, as far as \<open>read_line\<close>
  uses it: the characters not yet read and the state flags (\<open>failbit\<close> stands
  for \<open>fail()\<close>). \<open>std::getline\<close> follows the C++ standard: on a
  stream that is not good it sets \<open>failbit\<close> and leaves the string alone;
  otherwise it erases the string and extracts up to the newline, which it drops, setting
  \<open>eofbit\<close> when the input ends first and \<open>failbit\<close> too when
  nothing was extracted.
\<close>

record istream =
  chars :: string
  eofbit :: bool
  failbit :: bool

definition getline :: "istream \<Rightarrow> string \<Rightarrow> istream \<times> string" where
  "getline s str =
     (if eofbit s \<or> failbit s then (s\<lparr>failbit := True\<rparr>, str)
      else
        let l = takeWhile (\<lambda>c. \<not> is_newline c) (chars s) in
        (case drop (length l) (chars s) of
           [] \<Rightarrow> (s\<lparr>chars := [], eofbit := True, failbit := (l = [])\<rparr>, l)
         | _ # rest \<Rightarrow> (s\<lparr>chars := rest\<rparr>, l)))"

text \<open>
  \<open>struct read_table2\<close>: the \<open>line_parser\<close> it derives from, the
  stream it reads and the line counter.
\<close>

record read_table2 =
  parser :: line_parser
  stream :: istream
  line :: nat

definition read_table2_of :: "istream \<Rightarrow> read_table2" where
  "read_table2_of s = \<lparr>parser = line_parser_of [], stream = s, line = 0\<rparr>"

text \<open>One round of the loop \<open>while(1)\<close> of \<open>read_line\<close>, up to its \<open>break\<close> or \<open>return\<close>.\<close>

function read_line_loop :: "read_table2 \<Rightarrow> bool \<Rightarrow> bool \<times> read_table2" where
  "read_line_loop r skip =
     (case getline (stream r) (buf (parser r)) of (s, b) \<Rightarrow>
        if eofbit s then (False, r\<lparr>stream := s, parser := (parser r)\<lparr>buf := b, last_error := T_EOF\<rparr>\<rparr>)
        else if failbit s then
          (False, r\<lparr>stream := s, parser := (parser r)\<lparr>buf := b, last_error := T_READ_ERROR\<rparr>\<rparr>)
        else if skip then
          (let p = scan_until not_blank b 0;
               r1 = r\<lparr>stream := s, line := Suc (line r), parser := (parser r)\<lparr>buf := b, pos := p\<rparr>\<rparr>
           in if p < length b then
                (if comment (parser r) \<noteq> NUL \<and> char_at b p = comment (parser r)
                 then read_line_loop r1 skip
                 else if delim (parser r) \<noteq> NUL
                   then (True, r1\<lparr>parser := (parser r1)\<lparr>pos := 0\<rparr>\<rparr>)
                   else (True, r1))
              else read_line_loop r1 skip)
        else
          (True, r\<lparr>stream := s, line := Suc (line r), parser := (parser r)\<lparr>buf := b, pos := 0\<rparr>\<rparr>))"
  by pat_completeness auto
termination
proof -
  have consumes: "length (chars s) < length (chars (stream r))"
    if "getline (stream r) (buf (parser r)) = (s, b)" "\<not> eofbit s" "\<not> failbit s"
    for r :: read_table2 and s b
  proof -
    let ?cs = "chars (stream r)"
    let ?l = "takeWhile (\<lambda>c. \<not> is_newline c) ?cs"
    from that obtain c where d: "drop (length ?l) ?cs = c # chars s"
      by (auto simp: getline_def Let_def split: if_splits list.splits)
    have "length (drop (length ?l) ?cs) \<le> length ?cs"
      by simp
    with d show ?thesis
      by simp
  qed
  show ?thesis
    by (relation "measure (\<lambda>(r, skip). length (chars (stream r)))")
      (auto dest: consumes consumes [OF sym])
qed

declare read_line_loop.simps [simp del]

text \<open>The line ending that \<open>read_line\<close> removes from the end of the buffer.\<close>

definition strip_line_ending :: "string \<Rightarrow> string" where
  "strip_line_ending b =
     (if b \<noteq> [] \<and> (last b = CHR 0x0A \<or> last b = CHR 0x0D) then butlast b else b)"

definition read_line :: "read_table2 \<Rightarrow> bool \<Rightarrow> bool \<times> read_table2" where
  "read_line r skip =
     (if last_error (parser r) = T_EOF \<or> last_error (parser r) = T_COPIED
         \<or> last_error (parser r) = T_ERROR_FOPEN then (False, r)
      else if eofbit (stream r) then (False, r\<lparr>parser := (parser r)\<lparr>last_error := T_EOF\<rparr>\<rparr>)
      else
        (case read_line_loop r skip of
           (False, r1) \<Rightarrow> (False, r1)
         | (True, r1) \<Rightarrow>
             (True, r1\<lparr>parser := (parser r1)\<lparr>col := 0, last_error := T_OK,
                                              buf := strip_line_ending (buf (parser r1))\<rparr>\<rparr>)))"

section \<open>Notions used to state the properties\<close>

text \<open>
  A read changes the position, the column and the error of the cursor, never the line or
  the configuration.
\<close>

definition same_line :: "line_parser \<Rightarrow> line_parser \<Rightarrow> bool" where
  "same_line lp lp' \<longleftrightarrow>
     buf lp' = buf lp \<and> base lp' = base lp \<and> delim lp' = delim lp
     \<and> comment lp' = comment lp \<and> allow_nan_inf lp' = allow_nan_inf lp"

definition read_frame :: "bool \<Rightarrow> line_parser \<Rightarrow> bool \<Rightarrow> line_parser \<Rightarrow> bool" where
  "read_frame adv lp ret lp' \<longleftrightarrow>
     same_line lp lp'
     \<and> (if adv then True else pos lp' = pos lp)
     \<and> (if ret then last_error lp' = T_OK else last_error lp' \<noteq> T_OK)
     \<and> (if delim lp = NUL \<and> \<not> ret then last_error lp' \<noteq> T_MISSING else True)
     \<and> col lp \<le> col lp'"

text \<open>
  What a string read leaves behind: the column counts no string, and a successful read
  either leaves the error alone or records the end of the line.
\<close>

definition string_frame :: "bool \<Rightarrow> line_parser \<Rightarrow> bool \<Rightarrow> line_parser \<Rightarrow> bool" where
  "string_frame adv lp ret lp' \<longleftrightarrow>
     same_line lp lp' \<and> col lp' = col lp
     \<and> (if adv then True else pos lp' = pos lp)
     \<and> (if ret then last_error lp' = last_error lp \<or> last_error lp' = T_EOL
         else last_error lp' \<noteq> T_OK)
     \<and> (if delim lp = NUL \<and> \<not> ret then last_error lp' \<noteq> T_MISSING else True)"

definition is_string_op :: "'d read_op \<Rightarrow> bool" where
  "is_string_op op \<longleftrightarrow> op = String \<or> op = String_view"

text \<open>The error kinds from which a cursor is not meant to recover.\<close>

definition sticky :: "read_table_errors \<Rightarrow> bool" where
  "sticky e \<longleftrightarrow> e = T_EOF \<or> e = T_COPIED \<or> e = T_ERROR_FOPEN \<or> e = T_READ_ERROR"

text \<open>
  The conversion behind a read of one numeric field, by the kind of its type: how many
  characters it consumes from the C string it is given, and the \<open>errno\<close> it leaves.
\<close>

datatype conv_kind = Signed | Unsigned | Floating

fun op_kind :: "'d read_op \<Rightarrow> conv_kind option" where
  "op_kind Int32 = Some Signed"
| "op_kind Int16 = Some Signed"
| "op_kind Int64 = Some Signed"
| "op_kind (Int32_bounds mn mx) = Some Signed"
| "op_kind (Int16_bounds mn mx) = Some Signed"
| "op_kind (Int64_bounds mn mx) = Some Signed"
| "op_kind UInt32 = Some Unsigned"
| "op_kind UInt16 = Some Unsigned"
| "op_kind UInt64 = Some Unsigned"
| "op_kind (UInt32_bounds mn mx) = Some Unsigned"
| "op_kind (UInt16_bounds mn mx) = Some Unsigned"
| "op_kind (UInt64_bounds mn mx) = Some Unsigned"
| "op_kind Double = Some Floating"
| "op_kind (Double_bounds mn mx) = Some Floating"
| "op_kind Coords = None"
| "op_kind (Coords_bounds mn mx) = None"
| "op_kind String = None"
| "op_kind String_view = None"
| "op_kind Skip = None"

fun conversion :: "'d libm \<Rightarrow> conv_kind \<Rightarrow> string \<Rightarrow> int \<Rightarrow> nat \<times> errno" where
  "conversion L Signed s b = snd (strtol s b)"
| "conversion L Unsigned s b = snd (strtoul s b)"
| "conversion L Floating s b = snd (strtod L s)"


text \<open>
  What may follow a converted number for the post-check to accept it: after the blanks,
  the end of the line, a newline or the comment character; otherwise at least one blank in
  whitespace mode, or the delimiter in delimiter mode.
\<close>

definition field_terminated :: "line_parser \<Rightarrow> string \<Rightarrow> bool" where
  "field_terminated lp rest \<longleftrightarrow>
     (let r = dropWhile is_blank rest in
      r = [] \<or> is_newline (hd r) \<or> (comment lp \<noteq> NUL \<and> hd r = comment lp)
      \<or> (if delim lp = NUL then r \<noteq> rest else hd r = delim lp))"







section \<open>Scanning and the pre-check on a field\<close>

lemma scan_until_stop: "p < length s \<Longrightarrow> stop (s ! p) \<Longrightarrow> scan_until stop s p = p"
  by (simp add: scan_until.simps)

lemma scan_until_end: "length s \<le> p \<Longrightarrow> scan_until stop s p = p"
  by (simp add: scan_until.simps)

lemma scan_until_skip:
  "\<forall>x\<in>set bl. \<not> stop x \<Longrightarrow>
   scan_until stop (pre @ bl @ rest) (length pre) =
   scan_until stop (pre @ bl @ rest) (length pre + length bl)"
proof (induction bl arbitrary: pre)
  case Nil
  then show ?case by simp
next
  case (Cons x xs)
  have "scan_until stop (pre @ (x # xs) @ rest) (length pre)
      = scan_until stop (pre @ (x # xs) @ rest) (Suc (length pre))"
    using Cons.prems by (subst scan_until.simps) simp
  also have "\<dots> = scan_until stop ((pre @ [x]) @ xs @ rest) (length (pre @ [x]))"
    by simp
  also have "\<dots> = scan_until stop ((pre @ [x]) @ xs @ rest) (length (pre @ [x]) + length xs)"
    using Cons.prems by (intro Cons.IH) simp
  finally show ?case by simp
qed

lemma scan_until_field:
  assumes "\<forall>x\<in>set bl. \<not> stop x" "stop c"
  shows "scan_until stop (pre @ bl @ c # rest) (length pre) = length pre + length bl"
proof -
  have "scan_until stop (pre @ bl @ c # rest) (length pre)
      = scan_until stop (pre @ bl @ c # rest) (length pre + length bl)"
    using assms(1) by (rule scan_until_skip)
  also have "\<dots> = length pre + length bl"
    using assms(2) by (intro scan_until_stop) (simp_all add: nth_append)
  finally show ?thesis .
qed

lemma scan_until_all:
  assumes "\<forall>x\<in>set bl. \<not> stop x"
  shows "scan_until stop (pre @ bl) (length pre) = length pre + length bl"
proof -
  have "scan_until stop (pre @ bl @ []) (length pre)
      = scan_until stop (pre @ bl @ []) (length pre + length bl)"
    using assms by (rule scan_until_skip)
  then show ?thesis by (simp add: scan_until_end)
qed

lemma scan_until_ge: "p \<le> scan_until stop s p"
  by (induction stop s p rule: scan_until.induct) (subst scan_until.simps, auto)

lemma scan_until_le: "p \<le> length s \<Longrightarrow> scan_until stop s p \<le> length s"
  by (induction stop s p rule: scan_until.induct) (subst scan_until.simps, auto)

lemma scan_until_stops:
  "scan_until stop s p < length s \<Longrightarrow> stop (s ! scan_until stop s p)"
proof (induction stop s p rule: scan_until.induct)
  case (1 stop s p)
  show ?case
  proof (cases "p < length s \<and> \<not> stop (s ! p)")
    case True
    then have eq: "scan_until stop s p = scan_until stop s (Suc p)"
      by (subst scan_until.simps) simp
    show ?thesis
      using True "1.IH" "1.prems" unfolding eq by simp
  next
    case False
    then have "scan_until stop s p = p"
      by (subst scan_until.simps) auto
    then show ?thesis
      using False "1.prems" by auto
  qed
qed

lemma char_at_field: "char_at (pre @ bl @ c # rest) (length pre + length bl) = c"
  by (simp add: char_at_def nth_append)

lemma pre_check_field:
  assumes "\<not> blocked (last_error lp)"
    and "buf lp = pre @ bl @ c # rest" "pos lp = length pre"
    and "\<forall>b\<in>set bl. is_blank b" "\<not> is_blank c" "\<not> is_newline c"
    and "comment lp = NUL \<or> c \<noteq> comment lp"
    and "delim lp = NUL \<or> c \<noteq> delim lp"
  shows "read_table_pre_check lp adv = (True, lp\<lparr>pos := length pre + length bl\<rparr>)"
proof -
  have p: "scan_until not_blank (buf lp) (pos lp) = length pre + length bl"
    using assms(2-5) by (simp add: scan_until_field not_blank_def)
  have c: "char_at (buf lp) (length pre + length bl) = c"
    by (simp add: assms(2) char_at_field)
  have l: "length pre + length bl \<noteq> length (buf lp)"
    by (simp add: assms(2))
  show ?thesis
    using assms(1,6,7,8) unfolding read_table_pre_check_def
    by (auto simp add: p c l Let_def at_line_end_def)
qed

lemma ulong_reject:
  assumes "\<not> blocked (last_error lp)"
    and "buf lp = pre @ bl @ c # rest" "pos lp = length pre"
    and "\<forall>b\<in>set bl. is_blank b" "\<not> is_blank c" "\<not> is_newline c"
    and "comment lp = NUL \<or> c \<noteq> comment lp"
    and "delim lp = NUL \<or> c \<noteq> delim lp"
    and "\<not> isalnum c" "c \<noteq> CHR ''+''"
  shows "read_ulong_limits lp mn mx adv =
           (False, Some 0,
            restore_pos adv (length pre)
              (lp\<lparr>pos := length pre + length bl,
                  last_error := (if c = CHR ''-'' then T_OVERFLOW else T_FORMAT)\<rparr>))"
proof -
  have pc: "read_table_pre_check lp adv = (True, lp\<lparr>pos := length pre + length bl\<rparr>)"
    using assms(1-8) by (rule pre_check_field)
  have c: "char_at (buf lp) (length pre + length bl) = c"
    by (simp add: assms(2) char_at_field)
  show ?thesis
    unfolding read_ulong_limits_def
    using assms(9,10) by (simp add: pc c assms(3))
qed

text \<open>
  C2. An unsigned read (16, 32 or 64 bits, any bounds) whose field starts, after the blanks,
  with a character that is neither alphanumeric nor \<open>+\<close> fails: with \<open>T_OVERFLOW\<close> when
  the character is \<open>-\<close>, with \<open>T_FORMAT\<close> otherwise. The field is there: the cursor is
  not blocked by an earlier error, and the character is no newline, comment character or
  delimiter, which the pre-check reports first.
\<close>

theorem unsigned_minus_is_overflow:
  assumes "\<not> blocked (last_error lp)"
    and "buf lp = pre @ bl @ c # rest" "pos lp = length pre"
    and "\<forall>b\<in>set bl. is_blank b" "\<not> is_blank c" "\<not> is_newline c"
    and "comment lp = NUL \<or> c \<noteq> comment lp"
    and "delim lp = NUL \<or> c \<noteq> delim lp"
    and "\<not> isalnum c" "c \<noteq> CHR ''+''"
    and "e = (if c = CHR ''-'' then T_OVERFLOW else T_FORMAT)"
  shows "(\<exists>lp'. read_uint32_limits lp mn32 mx32 adv = (False, Some 0, lp') \<and> last_error lp' = e)
       \<and> (\<exists>lp'. read_uint64_limits lp mn64 mx64 adv = (False, Some 0, lp') \<and> last_error lp' = e)
       \<and> (\<exists>lp'. read_uint16_limits lp mn16 mx16 adv = (False, None, lp') \<and> last_error lp' = e)
       \<and> (\<exists>lp'. read_uint32 lp adv = (False, Some 0, lp') \<and> last_error lp' = e)
       \<and> (\<exists>lp'. read_uint64 lp adv = (False, Some 0, lp') \<and> last_error lp' = e)
       \<and> (\<exists>lp'. read_uint16 lp adv = (False, None, lp') \<and> last_error lp' = e)"
  unfolding read_uint32_limits_def read_uint64_limits_def read_uint16_limits_def
    read_uint32_def read_uint64_def read_uint16_def
  using assms(11) by (simp add: ulong_reject [OF assms(1-10)] restore_pos_def)

theorem unsigned_minus_is_overflow_witness:
  "(\<exists>lp'. read_uint32_limits (line_parser_of '' -5'') 1 9 True = (False, Some 0, lp')
          \<and> last_error lp' = T_OVERFLOW)
   \<and> (\<exists>lp'. read_uint64_limits (line_parser_of '' -5'') 1 9 True = (False, Some 0, lp')
          \<and> last_error lp' = T_OVERFLOW)
   \<and> (\<exists>lp'. read_uint16_limits (line_parser_of '' -5'') 1 9 True = (False, None, lp')
          \<and> last_error lp' = T_OVERFLOW)
   \<and> (\<exists>lp'. read_uint32 (line_parser_of '' -5'') True = (False, Some 0, lp')
          \<and> last_error lp' = T_OVERFLOW)
   \<and> (\<exists>lp'. read_uint64 (line_parser_of '' -5'') True = (False, Some 0, lp')
          \<and> last_error lp' = T_OVERFLOW)
   \<and> (\<exists>lp'. read_uint16 (line_parser_of '' -5'') True = (False, None, lp')
          \<and> last_error lp' = T_OVERFLOW)"
  using unsigned_minus_is_overflow [where lp = "line_parser_of '' -5''" and pre = "[]"
      and bl = "'' ''" and c = "CHR ''-''" and rest = "''5''" and e = T_OVERFLOW
      and adv = True and ?mn32.0 = 1 and ?mx32.0 = 9 and ?mn64.0 = 1 and ?mx64.0 = 9
      and ?mn16.0 = 1 and ?mx16.0 = 9]
  by (simp add: line_parser_of_def blocked_def is_blank_def is_newline_def isalnum_def
      isdigit_def isupper_def islower_def char_code_def NUL_def)

lemma scan_until_takeWhile:
  "scan_until stop s p =
     (if p \<le> length s then p + length (takeWhile (\<lambda>c. \<not> stop c) (drop p s)) else p)"
proof (induction stop s p rule: scan_until.induct)
  case (1 stop s p)
  show ?case
  proof (cases "p < length s")
    case True
    then have d: "drop p s = s ! p # drop (Suc p) s"
      by (simp add: Cons_nth_drop_Suc)
    show ?thesis
    proof (cases "stop (s ! p)")
      case True
      with \<open>p < length s\<close> d show ?thesis
        by (subst scan_until.simps) simp
    next
      case False
      with \<open>p < length s\<close> d "1.IH" show ?thesis
        by (subst scan_until.simps) simp
    qed
  next
    case False
    then show ?thesis
      by (subst scan_until.simps) simp
  qed
qed

lemmas eval_defs =
  line_parser_of_def set_delim_def set_comment_def NUL_def is_blank_def is_newline_def
  not_blank_def char_at_def at_line_end_def blocked_def restore_pos_def
  read_table_pre_check_def read_table_post_check_def c_str_from_def
  isspace_def isdigit_def isupper_def islower_def isalnum_def digit_val_def is_digit_in_def
  char_code_def sign_of_def hex_prefix_def leading_zero_def strto_scan_def
  LONG_MAX_def LONG_MIN_def ULONG_MAX_def bad_base_def strtol_def strtoul_def
  read_long_limits_def read_ulong_limits_def read_int32_limits_def read_int64_limits_def
  read_uint32_limits_def read_uint64_limits_def read_int16_limits_def read_uint16_limits_def
  read_int32_def read_uint32_def read_int64_def read_uint64_def read_int16_def read_uint16_def
  INT16_MIN_def INT16_MAX_def UINT16_MAX_def INT32_MIN_def INT32_MAX_def UINT32_MAX_def
  INT64_MIN_def INT64_MAX_def UINT64_MAX_def
  is_delim_def field_end_def delim_field_end_def read_skip_def read_string2_def
  read_string_def read_string_view_def tagged_def Let_def scan_until_takeWhile

section \<open>Moves\<close>

lemma move_destination_but_delim:
  "fst (move_assign this lp residue) = lp\<lparr>delim := delim this\<rparr>
   \<and> fst (move_construct lp indet residue) = lp\<lparr>delim := indet\<rparr>"
  by (simp add: move_assign_def move_construct_def)

lemma move_source_invalidated:
  "last_error (snd (move_assign this lp residue)) = T_COPIED
   \<and> pos (snd (move_assign this lp residue)) = 0
   \<and> col (snd (move_assign this lp residue)) = 0
   \<and> last_error (snd (move_construct lp indet residue)) = T_COPIED
   \<and> pos (snd (move_construct lp indet residue)) = 0
   \<and> col (snd (move_construct lp indet residue)) = 0"
  by (simp add: move_assign_def move_construct_def)

text \<open>
  C10. The claim asks that the destination of a move holds the delimiter of the source.
  Moving a parser whose delimiter is a comma into a parser made with the default parameters
  leaves the destination without a delimiter: the move assignment copies every member but
  \<open>delim\<close>. The rest of the claim holds: line, position, column, error, base, comment
  character and the NaN flag arrive, and the source is left with \<open>T_COPIED\<close> at position and
  column 0.
\<close>

theorem move_assign_keeps_old_delim:
  "move_assign (line_parser_of []) (set_delim (line_parser_of ''1,2'') (CHR '','')) []
   = (\<lparr>buf = ''1,2'', pos = 0, col = 0, base = 10, last_error = T_OK, delim = NUL,
        comment = NUL, allow_nan_inf = True\<rparr>,
      \<lparr>buf = [], pos = 0, col = 0, base = 10, last_error = T_COPIED, delim = CHR '','',
        comment = NUL, allow_nan_inf = True\<rparr>)"
  by (simp add: move_assign_def line_parser_of_def set_delim_def)

section \<open>Fetching a line\<close>

lemma read_line_terminal:
  "last_error (parser r) = T_EOF \<or> last_error (parser r) = T_COPIED
     \<or> last_error (parser r) = T_ERROR_FOPEN \<Longrightarrow> read_line r skip = (False, r)"
  by (auto simp add: read_line_def)

text \<open>
  C9. The claim asks that \<open>read_line\<close> is a failing no-op in each of the four terminal
  states. It is one for \<open>T_EOF\<close>, \<open>T_COPIED\<close> and \<open>T_ERROR_FOPEN\<close> (lemma
  \<open>read_line_terminal\<close>), but its guard does not list \<open>T_READ_ERROR\<close>: in that state it
  goes on to \<open>std::getline\<close>, and when the stream can be read again (its owner cleared the
  flags), it fetches the next line, returns true and resets the error to \<open>T_OK\<close>.
\<close>

theorem read_line_after_read_error:
  "read_line
     \<lparr>parser = (line_parser_of [])\<lparr>last_error := T_READ_ERROR\<rparr>,
      stream = \<lparr>chars = [CHR ''7'', CHR 0x0A], eofbit = False, failbit = False\<rparr>,
      line = 0\<rparr> True
   = (True,
      \<lparr>parser = line_parser_of ''7'',
       stream = \<lparr>chars = [], eofbit = False, failbit = False\<rparr>,
       line = 1\<rparr>)"
  by (simp add: read_line_def read_line_loop.simps getline_def line_parser_of_def
      is_newline_def scan_until.simps not_blank_def is_blank_def NUL_def char_at_def
      strip_line_ending_def)

section \<open>What every read leaves behind\<close>

lemma pre_check_blocked:
  "blocked (last_error lp) \<Longrightarrow> read_table_pre_check lp adv = (False, lp)"
  by (simp add: read_table_pre_check_def)

lemma restore_pos_simps [simp]:
  "buf (restore_pos adv p lp) = buf lp"
  "col (restore_pos adv p lp) = col lp"
  "base (restore_pos adv p lp) = base lp"
  "delim (restore_pos adv p lp) = delim lp"
  "comment (restore_pos adv p lp) = comment lp"
  "allow_nan_inf (restore_pos adv p lp) = allow_nan_inf lp"
  "last_error (restore_pos adv p lp) = last_error lp"
  "pos (restore_pos False p lp) = p"
  "restore_pos True p lp = lp"
  by (simp_all add: restore_pos_def)

lemma same_line_restore [simp]:
  "same_line lp (restore_pos adv p lp') = same_line lp lp'"
  "same_line lp (lp'\<lparr>last_error := e\<rparr>) = same_line lp lp'"
  "same_line lp (lp'\<lparr>pos := q\<rparr>) = same_line lp lp'"
  "same_line lp (lp'\<lparr>col := k\<rparr>) = same_line lp lp'"
  "same_line lp lp"
  by (simp_all add: same_line_def)

lemma pre_check_TrueD:
  "read_table_pre_check lp adv = (True, lp1) \<Longrightarrow>
     lp1 = lp\<lparr>pos := scan_until not_blank (buf lp) (pos lp)\<rparr>
     \<and> \<not> blocked (last_error lp)
     \<and> \<not> at_line_end lp (scan_until not_blank (buf lp) (pos lp))
     \<and> (delim lp = NUL \<or> char_at (buf lp) (scan_until not_blank (buf lp) (pos lp)) \<noteq> delim lp)"
  by (auto simp add: read_table_pre_check_def Let_def at_line_end_def split: if_splits)

lemma pre_check_FalseD:
  "read_table_pre_check lp adv = (False, lp1) \<Longrightarrow>
     same_line lp lp1 \<and> col lp1 = col lp \<and> (\<not> adv \<longrightarrow> pos lp1 = pos lp)
     \<and> last_error lp1 \<noteq> T_OK \<and> (delim lp = NUL \<longrightarrow> last_error lp1 \<noteq> T_MISSING)"
  by (auto simp add: read_table_pre_check_def Let_def same_line_def blocked_def
      split: if_splits)

lemma post_check_TrueD:
  "read_table_post_check lp e c2 = (True, lp1) \<Longrightarrow>
     same_line lp lp1 \<and> last_error lp1 = T_OK \<and> col lp \<le> col lp1 \<and> e = E_NONE \<and> c2 \<noteq> pos lp"
  by (auto simp add: read_table_post_check_def Let_def same_line_def
      split: if_splits intro: errno.exhaust)

lemma post_check_FalseD:
  "read_table_post_check lp e c2 = (False, lp1) \<Longrightarrow>
     same_line lp lp1 \<and> col lp1 = col lp
     \<and> (last_error lp1 = T_FORMAT \<or> last_error lp1 = T_OVERFLOW)"
  by (auto simp add: read_table_post_check_def Let_def same_line_def split: if_splits)

lemma pre_check_frame:
  "read_table_pre_check lp adv = (False, lp1) \<Longrightarrow> read_frame adv lp False lp1"
  by (drule pre_check_FalseD) (simp add: read_frame_def)

lemma pre_check_same:
  "read_table_pre_check lp adv = (True, lp1) \<Longrightarrow> same_line lp lp1 \<and> col lp1 = col lp"
  by (drule pre_check_TrueD) (simp add: same_line_def)

lemma typed_tail:
  assumes "same_line lp lp1 \<and> col lp1 = col lp"
    and "read_table_post_check lp1 e c2 = (ok2, lp2)"
  shows "read_frame adv lp ok2 (restore_pos adv (pos lp) lp2)"
    and "ok2 \<Longrightarrow> err \<noteq> T_OK \<Longrightarrow> err \<noteq> T_MISSING \<Longrightarrow>
           read_frame adv lp False (restore_pos adv (pos lp) (lp2\<lparr>last_error := err\<rparr>))"
proof -
  show "read_frame adv lp ok2 (restore_pos adv (pos lp) lp2)"
  proof (cases ok2)
    case True
    with assms(2) have "read_table_post_check lp1 e c2 = (True, lp2)" by simp
    from post_check_TrueD [OF this] assms(1) True show ?thesis
      by (cases adv) (auto simp add: read_frame_def same_line_def)
  next
    case False
    with assms(2) have "read_table_post_check lp1 e c2 = (False, lp2)" by simp
    from post_check_FalseD [OF this] assms(1) False show ?thesis
      by (cases adv) (auto simp add: read_frame_def same_line_def)
  qed
  show "read_frame adv lp False (restore_pos adv (pos lp) (lp2\<lparr>last_error := err\<rparr>))"
    if "ok2" "err \<noteq> T_OK" "err \<noteq> T_MISSING"
  proof -
    from that assms(2) have "read_table_post_check lp1 e c2 = (True, lp2)" by simp
    from post_check_TrueD [OF this] assms(1) that show ?thesis
      by (cases adv) (auto simp add: read_frame_def same_line_def)
  qed
qed

lemma read_long_limits_frame:
  assumes "read_long_limits lp mn mx adv = (ret, v, lp')"
  shows "read_frame adv lp ret lp'"
proof -
  obtain ok lp1 where pc: "read_table_pre_check lp adv = (ok, lp1)"
    by fastforce
  show ?thesis
  proof (cases ok)
    case False
    with assms pc pre_check_frame [of lp adv lp1] show ?thesis
      by (simp add: read_long_limits_def)
  next
    case True
    with pc have sl: "same_line lp lp1 \<and> col lp1 = col lp"
      by (simp add: pre_check_same)
    obtain res n e where conv: "strtol (c_str_from (buf lp1) (pos lp1)) (base lp1) = (res, n, e)"
      using prod_cases3 by blast
    obtain ok2 lp2 where po: "read_table_post_check lp1 e (pos lp1 + n) = (ok2, lp2)"
      by fastforce
    note tl = typed_tail [OF sl po, where adv = adv]
    from assms pc True conv po tl(1) tl(2) [where err = T_OVERFLOW] show ?thesis
      by (cases ok2) (auto simp add: read_long_limits_def Let_def split: if_splits)
  qed
qed

lemma read_ulong_limits_frame:
  assumes "read_ulong_limits lp mn mx adv = (ret, v, lp')"
  shows "read_frame adv lp ret lp'"
proof -
  obtain ok lp1 where pc: "read_table_pre_check lp adv = (ok, lp1)"
    by fastforce
  show ?thesis
  proof (cases ok)
    case False
    with assms pc pre_check_frame [of lp adv lp1] show ?thesis
      by (simp add: read_ulong_limits_def)
  next
    case True
    with pc have sl: "same_line lp lp1 \<and> col lp1 = col lp"
      by (simp add: pre_check_same)
    let ?c = "char_at (buf lp1) (pos lp1)"
    show ?thesis
    proof (cases "isalnum ?c \<or> ?c = CHR ''+''")
      case False
      with assms pc True sl show ?thesis
        by (cases adv)
          (auto simp add: read_ulong_limits_def Let_def read_frame_def same_line_def
            split: if_splits)
    next
      case ok_c: True
      obtain res n e where conv: "strtoul (c_str_from (buf lp1) (pos lp1)) (base lp1) = (res, n, e)"
        using prod_cases3 by blast
      obtain ok2 lp2 where po: "read_table_post_check lp1 e (pos lp1 + n) = (ok2, lp2)"
        by fastforce
      note tl = typed_tail [OF sl po, where adv = adv]
      from assms pc True ok_c conv po tl(1) tl(2) [where err = T_OVERFLOW] show ?thesis
        by (cases ok2) (auto simp add: read_ulong_limits_def Let_def split: if_splits)
    qed
  qed
qed

lemma read_double_frame:
  assumes "read_double L lp adv = (ret, v, lp')"
  shows "read_frame adv lp ret lp'"
proof -
  obtain ok lp1 where pc: "read_table_pre_check lp adv = (ok, lp1)"
    by fastforce
  show ?thesis
  proof (cases ok)
    case False
    with assms pc pre_check_frame [of lp adv lp1] show ?thesis
      by (simp add: read_double_def)
  next
    case True
    with pc have sl: "same_line lp lp1 \<and> col lp1 = col lp"
      by (simp add: pre_check_same)
    obtain d n e where conv: "strtod L (c_str_from (buf lp1) (pos lp1)) = (d, n, e)"
      using prod_cases3 by blast
    obtain ok2 lp2 where po: "read_table_post_check lp1 e (pos lp1 + n) = (ok2, lp2)"
      by fastforce
    note tl = typed_tail [OF sl po, where adv = adv]
    from assms pc True conv po tl(1) tl(2) [where err = T_NAN] show ?thesis
      by (cases ok2) (auto simp add: read_double_def Let_def split: if_splits)
  qed
qed

lemma read_double_limits_frame:
  assumes "read_double_limits L lp mn mx adv = (ret, v, lp')"
  shows "read_frame adv lp ret lp'"
proof -
  obtain ok lp1 where pc: "read_table_pre_check lp adv = (ok, lp1)"
    by fastforce
  show ?thesis
  proof (cases ok)
    case False
    with assms pc pre_check_frame [of lp adv lp1] show ?thesis
      by (simp add: read_double_limits_def)
  next
    case True
    with pc have sl: "same_line lp lp1 \<and> col lp1 = col lp"
      by (simp add: pre_check_same)
    obtain d n e where conv: "strtod L (c_str_from (buf lp1) (pos lp1)) = (d, n, e)"
      using prod_cases3 by blast
    obtain ok2 lp2 where po: "read_table_post_check lp1 e (pos lp1 + n) = (ok2, lp2)"
      by fastforce
    note tl = typed_tail [OF sl po, where adv = adv]
    from assms pc True conv po tl(1) tl(2) [where err = T_NAN] tl(2) [where err = T_OVERFLOW] show ?thesis
      by (cases ok2) (auto simp add: read_double_limits_def Let_def split: if_splits)
  qed
qed

text \<open>A double read that succeeds has written its output, which the pair reads rely on.\<close>

lemma read_double_writes:
  "read_double L lp adv = (True, v, lp') \<Longrightarrow> v \<noteq> None"
  "read_double_limits L lp mn mx adv = (True, v, lp') \<Longrightarrow> v \<noteq> None"
  by (auto simp add: read_double_def read_double_limits_def Let_def
      split: prod.splits bool.splits if_splits)

lemma read_string2_frame:
  assumes "read_string2 lp adv = (ret, v, lp')"
  shows "string_frame adv lp ret lp'"
proof (cases "delim lp = NUL")
  case True
  obtain ok lp1 where pc: "read_table_pre_check lp adv = (ok, lp1)"
    by fastforce
  show ?thesis
  proof (cases ok)
    case False
    with pc have "read_table_pre_check lp adv = (False, lp1)" by simp
    from pre_check_FalseD [OF this] assms pc True False show ?thesis
      by (cases adv) (auto simp add: read_string2_def string_frame_def)
  next
    case ok: True
    with pc have "read_table_pre_check lp adv = (True, lp1)" by simp
    from pre_check_TrueD [OF this] assms pc True ok show ?thesis
      by (cases adv) (auto simp add: read_string2_def string_frame_def Let_def same_line_def)
  qed
next
  case False
  with assms show ?thesis
    by (cases adv)
      (auto simp add: read_string2_def string_frame_def Let_def same_line_def
        split: if_splits)
qed

lemma read_string_frame:
  assumes "read_string lp adv = (ret, v, lp')"
  shows "string_frame adv lp ret lp'"
proof -
  obtain r p lp1 where s2: "read_string2 lp adv = (r, p, lp1)"
    using prod_cases3 by blast
  from read_string2_frame [OF s2] assms s2 show ?thesis
    by (cases r) (auto simp add: read_string_def)
qed

lemma read_string_view_frame:
  assumes "read_string_view lp adv = (ret, v, lp')"
  shows "string_frame adv lp ret lp'"
proof -
  obtain r p lp1 where s2: "read_string2 lp adv = (r, p, lp1)"
    using prod_cases3 by blast
  from read_string2_frame [OF s2] assms s2 show ?thesis
    by (cases r) (auto simp add: read_string_view_def)
qed

lemma read_skip_frame:
  assumes "read_skip lp = (ret, lp')"
  shows "read_frame True lp ret lp'"
  using assms
  by (auto simp add: read_skip_def read_frame_def same_line_def Let_def split: if_splits)

lemma read_int16_limits_frame:
  assumes "read_int16_limits lp mn mx adv = (ret, v, lp')"
  shows "read_frame adv lp ret lp'"
proof -
  obtain r i2 lp1 where r32: "read_long_limits lp (scast mn :: 32 word) (scast mx) adv = (r, i2, lp1)"
    using prod_cases3 by blast
  from read_long_limits_frame [OF r32] assms r32 show ?thesis
    by (simp add: read_int16_limits_def read_int32_limits_def)
qed

lemma read_uint16_limits_frame:
  assumes "read_uint16_limits lp mn mx adv = (ret, v, lp')"
  shows "read_frame adv lp ret lp'"
proof -
  obtain r i2 lp1 where r32: "read_ulong_limits lp (ucast mn :: 32 word) (ucast mx) adv = (r, i2, lp1)"
    using prod_cases3 by blast
  from read_ulong_limits_frame [OF r32] assms r32 show ?thesis
    by (simp add: read_uint16_limits_def read_uint32_limits_def)
qed

lemma read_frame_fail_restore:
  "read_frame True lp False lp1 \<Longrightarrow> read_frame adv lp False (restore_pos adv (pos lp) lp1)"
  by (cases adv) (auto simp add: read_frame_def same_line_def)

lemma read_frame_seq:
  "read_frame True lp True lp1 \<Longrightarrow> read_frame True lp1 r lp2 \<Longrightarrow>
   read_frame adv lp r (restore_pos adv (pos lp) lp2)"
  by (cases adv; cases r) (auto simp add: read_frame_def same_line_def)

lemma read_coords_frame:
  assumes "read_coords L lp adv = (ret, v, lp')"
  shows "read_frame adv lp ret lp'"
proof -
  obtain r1 x lp1 where d1: "read_double L lp True = (r1, x, lp1)"
    using prod_cases3 by blast
  note f1 = read_double_frame [OF d1]
  show ?thesis
  proof (cases r1)
    case False
    with assms d1 f1 read_frame_fail_restore [of lp lp1 adv] show ?thesis
      by (simp add: read_coords_def)
  next
    case True
    obtain r2 y lp2 where d2: "read_double L lp1 True = (r2, y, lp2)"
      using prod_cases3 by blast
    from read_frame_seq [of lp lp1 r2 lp2 adv] f1 True read_double_frame [OF d2]
    have "read_frame adv lp r2 (restore_pos adv (pos lp) lp2)"
      by simp
    with assms d1 True d2 show ?thesis
      by (cases r2) (simp_all add: read_coords_def)
  qed
qed

lemma read_coords_bounds_frame:
  assumes "read_coords_bounds L lp mn mx adv = (ret, v, lp')"
  shows "read_frame adv lp ret lp'"
proof -
  obtain r1 x lp1 where d1: "read_double_limits L lp (fst mn) (fst mx) True = (r1, x, lp1)"
    using prod_cases3 by blast
  note f1 = read_double_limits_frame [OF d1]
  show ?thesis
  proof (cases r1)
    case False
    with assms d1 f1 read_frame_fail_restore [of lp lp1 adv] show ?thesis
      by (simp add: read_coords_bounds_def)
  next
    case True
    obtain r2 y lp2 where d2: "read_double_limits L lp1 (snd mn) (snd mx) True = (r2, y, lp2)"
      using prod_cases3 by blast
    from read_frame_seq [of lp lp1 r2 lp2 adv] f1 True read_double_limits_frame [OF d2]
    have "read_frame adv lp r2 (restore_pos adv (pos lp) lp2)"
      by simp
    with assms d1 True d2 show ?thesis
      by (cases r2) (simp_all add: read_coords_bounds_def)
  qed
qed

lemma tagged_eq:
  "tagged f r = (ret, v, lp') \<longleftrightarrow> (\<exists>w. r = (ret, w, lp') \<and> v = map_option f w)"
  by (cases r) (auto simp add: tagged_def)

lemma read_next_numeric_frame:
  assumes "read_next L lp op adv = (ret, v, lp')" "\<not> is_string_op op" "op \<noteq> Skip"
  shows "read_frame adv lp ret lp'"
  using assms
  by (cases op)
    (auto simp add: tagged_eq is_string_op_def read_int32_def read_uint32_def read_int16_def
      read_uint16_def read_int64_def read_uint64_def read_int32_limits_def
      read_uint32_limits_def read_int64_limits_def read_uint64_limits_def
      dest: read_long_limits_frame read_ulong_limits_frame read_int16_limits_frame
        read_uint16_limits_frame read_double_frame read_double_limits_frame
        read_coords_frame read_coords_bounds_frame)

lemma read_next_string_frame:
  assumes "read_next L lp op adv = (ret, v, lp')" "is_string_op op"
  shows "string_frame adv lp ret lp'"
  using assms
  by (auto simp add: tagged_eq is_string_op_def dest: read_string_frame read_string_view_frame)

lemma read_next_skip_frame:
  assumes "read_next L lp Skip adv = (ret, v, lp')"
  shows "read_frame True lp ret lp'"
  using assms by (auto split: prod.splits dest: read_skip_frame)

section \<open>The error after a read\<close>


text \<open>
  Nor does a string read reset an error that an earlier read left: it does not assign
  \<open>last_error\<close> unless it reaches the end of the line.
\<close>

lemma string_read_keeps_old_error:
  "read_int32 (line_parser_of ''x y'') True = (False, None, (line_parser_of ''x y'')\<lparr>last_error := T_FORMAT\<rparr>)
   \<and> read_string ((line_parser_of ''x y'')\<lparr>last_error := T_FORMAT\<rparr>) True
     = (True, Some ''x'', (line_parser_of ''x y'')\<lparr>pos := 1, last_error := T_FORMAT\<rparr>)"
  by (simp add: eval_defs)



section \<open>Non-advancing reads\<close>

text \<open>
  C5, as stated, fails for the column: a non-advancing read of an integer that is followed
  by another field restores the position but leaves the column incremented.
\<close>

theorem peek_increments_column:
  "read_int32 (line_parser_of ''5 6'') False
   = (True, Some 5, (line_parser_of ''5 6'')\<lparr>col := 1\<rparr>)"
  by (simp add: eval_defs)

text \<open>
  C5, amended. After a non-advancing read of an integer, a double, a pair of doubles or a
  string, with or without bounds, the position and the line buffer are what they were,
  whatever the result. (\<open>read_next\<close> for a skip takes the flag and does not use it.)
\<close>

theorem peek_keeps_position:
  assumes "read_next L lp op False = (ret, v, lp')" "op \<noteq> Skip"
  shows "pos lp' = pos lp \<and> buf lp' = buf lp"
proof (cases "is_string_op op")
  case True
  with read_next_string_frame [OF assms(1)] show ?thesis
    by (simp add: string_frame_def same_line_def)
next
  case False
  with read_next_numeric_frame [OF assms(1) False assms(2)] show ?thesis
    by (simp add: read_frame_def same_line_def)
qed

theorem peek_keeps_position_witness:
  "\<forall>L :: unit libm.
     read_next L (line_parser_of ''5 6'') Int32 False
       = (True, Some (Out32 5), (line_parser_of ''5 6'')\<lparr>col := 1\<rparr>)
     \<and> (Int32 :: unit read_op) \<noteq> Skip
     \<and> pos ((line_parser_of ''5 6'')\<lparr>col := 1\<rparr>) = pos (line_parser_of ''5 6'')
     \<and> buf ((line_parser_of ''5 6'')\<lparr>col := 1\<rparr>) = buf (line_parser_of ''5 6'')"
proof (intro allI)
  fix L :: "unit libm"
  let ?a = "line_parser_of ''5 6''"
  have a: "read_next L ?a Int32 False = (True, Some (Out32 5), ?a\<lparr>col := 1\<rparr>)"
    by (simp add: eval_defs)
  have b: "(Int32 :: unit read_op) \<noteq> Skip"
    by simp
  from peek_keeps_position [OF a b] a b
  show "read_next L ?a Int32 False = (True, Some (Out32 5), ?a\<lparr>col := 1\<rparr>)
     \<and> (Int32 :: unit read_op) \<noteq> Skip
     \<and> pos (?a\<lparr>col := 1\<rparr>) = pos ?a \<and> buf (?a\<lparr>col := 1\<rparr>) = buf ?a"
    by simp
qed

section \<open>Sticky errors\<close>

lemma sticky_blocked: "sticky e \<Longrightarrow> blocked e"
  by (auto simp add: sticky_def blocked_def)

lemma restore_pos_same [simp]: "restore_pos adv (pos lp) lp = lp"
  by (simp add: restore_pos_def)

lemma blocked_reads:
  assumes "blocked (last_error lp)"
  shows "read_long_limits lp mn mx adv = (False, None, lp)"
    and "read_ulong_limits lp mn mx adv = (False, None, lp)"
    and "read_int16_limits lp mn16 mx16 adv = (False, None, lp)"
    and "read_uint16_limits lp mn16 mx16 adv = (False, None, lp)"
    and "read_double L lp adv = (False, None, lp)"
    and "read_double_limits L lp dmn dmx adv = (False, None, lp)"
    and "read_coords L lp adv = (False, None, lp)"
    and "read_coords_bounds L lp cmn cmx adv = (False, None, lp)"
  using assms
  by (simp_all add: read_long_limits_def read_ulong_limits_def read_int16_limits_def
      read_uint16_limits_def read_int32_limits_def read_uint32_limits_def read_double_def
      read_double_limits_def read_coords_def read_coords_bounds_def pre_check_blocked)

lemma blocked_numeric_read:
  assumes "blocked (last_error lp)" "\<not> is_string_op op" "op \<noteq> Skip"
  shows "read_next L lp op adv = (False, None, lp)"
  using assms(2,3)
  by (cases op)
    (simp_all add: blocked_reads [OF assms(1)] tagged_def is_string_op_def read_int32_def
      read_uint32_def read_int16_def read_uint16_def read_int64_def read_uint64_def
      read_int32_limits_def read_uint32_limits_def read_int64_limits_def
      read_uint64_limits_def)

lemma sticky_string_read:
  assumes "sticky (last_error lp)" "is_string_op op"
    and "delim lp = NUL \<or> last_error lp \<noteq> T_COPIED"
  shows "read_next L lp op adv = (False, None, lp)"
proof -
  have "read_string2 lp adv = (False, None, lp)"
  proof (cases "delim lp = NUL")
    case True
    with sticky_blocked [OF assms(1)] show ?thesis
      by (simp add: read_string2_def pre_check_blocked)
  next
    case False
    with assms(1,3) show ?thesis
      by (auto simp add: read_string2_def sticky_def)
  qed
  with assms(2) show ?thesis
    by (auto simp add: is_string_op_def tagged_def read_string_def read_string_view_def)
qed

text \<open>
  C1. The claim asks that every field read, skip included, fails at once in a sticky state
  and leaves the cursor alone. The typed reads do (lemma \<open>blocked_numeric_read\<close>), and so
  do the string reads with the exceptions below (lemma \<open>sticky_string_read\<close>). But
  \<open>read_skip\<close> never looks at \<open>last_error\<close>: when the input ends without a newline,
  \<open>read_line\<close> returns false with \<open>T_EOF\<close> and the last line in the buffer, and a skip
  then scans that line, returns true, moves position and column and resets the error to
  \<open>T_OK\<close>. And the guard of \<open>read_string2\<close> in delimiter mode does not list
  \<open>T_COPIED\<close>: a string read on a moved-from parser returns true and replaces the error by
  \<open>T_EOL\<close>.
\<close>

theorem read_skip_after_eof:
  "read_line (read_table2_of \<lparr>chars = ''a b'', eofbit = False, failbit = False\<rparr>) True
   = (False,
      \<lparr>parser = (line_parser_of ''a b'')\<lparr>last_error := T_EOF\<rparr>,
       stream = \<lparr>chars = [], eofbit = True, failbit = False\<rparr>,
       line = 0\<rparr>)
   \<and> read_skip ((line_parser_of ''a b'')\<lparr>last_error := T_EOF\<rparr>)
     = (True, (line_parser_of ''a b'')\<lparr>pos := 1, col := 1, last_error := T_OK\<rparr>)
   \<and> read_string (snd (move_construct (set_delim (line_parser_of ''x,y'') (CHR '','')) (CHR '','') [])) True
     = (True, Some [],
        (set_delim (line_parser_of []) (CHR '',''))\<lparr>last_error := T_EOL\<rparr>)"
  by (simp add: read_line_def read_line_loop.simps getline_def read_table2_of_def
      move_construct_def eval_defs)

section \<open>Missing values\<close>

text \<open>
  C7. With a delimiter configured, a read of an integer, a double or a pair of doubles
  whose first character after the blanks is the delimiter fails with \<open>T_MISSING\<close>. The
  cursor is not blocked by an earlier error, and the delimiter is no blank, newline or
  comment character, which the pre-check meets first. Without a delimiter no read of any
  kind fails with \<open>T_MISSING\<close>.
\<close>

theorem empty_field_is_missing:
  "(\<not> blocked (last_error lp) \<and> delim lp \<noteq> NUL
      \<and> buf lp = pre @ bl @ delim lp # rest \<and> pos lp = length pre
      \<and> (\<forall>b\<in>set bl. is_blank b) \<and> \<not> is_blank (delim lp) \<and> \<not> is_newline (delim lp)
      \<and> comment lp \<noteq> delim lp \<and> \<not> is_string_op op \<and> op \<noteq> Skip
    \<longrightarrow> (\<exists>lp'. read_next L lp op adv = (False, None, lp') \<and> last_error lp' = T_MISSING))
   \<and> (delim lq = NUL \<and> read_next L lq oq advq = (False, v, lq')
    \<longrightarrow> last_error lq' \<noteq> T_MISSING)"
proof (intro conjI impI)
  assume a: "\<not> blocked (last_error lp) \<and> delim lp \<noteq> NUL
      \<and> buf lp = pre @ bl @ delim lp # rest \<and> pos lp = length pre
      \<and> (\<forall>b\<in>set bl. is_blank b) \<and> \<not> is_blank (delim lp) \<and> \<not> is_newline (delim lp)
      \<and> comment lp \<noteq> delim lp \<and> \<not> is_string_op op \<and> op \<noteq> Skip"
  let ?q = "length pre + length bl"
  let ?lp1 = "lp\<lparr>pos := ?q, last_error := T_MISSING\<rparr>"
  let ?lp' = "if adv then ?lp1 else lp\<lparr>pos := ?q, last_error := T_MISSING, pos := pos lp\<rparr>"
  have p: "scan_until not_blank (buf lp) (pos lp) = ?q"
    using a by (simp add: scan_until_field not_blank_def)
  have c: "char_at (buf lp) ?q = delim lp"
    using a by (simp add: char_at_field)
  have l: "?q \<noteq> length (buf lp)"
    using a by simp
  from a have cfg: "\<not> blocked (last_error lp)" "delim lp \<noteq> NUL"
    "\<not> is_newline (delim lp)" "comment lp \<noteq> delim lp"
    by simp_all
  have pc: "\<And>adv. read_table_pre_check lp adv
              = (False, if adv then ?lp1 else lp\<lparr>pos := ?q, last_error := T_MISSING, pos := pos lp\<rparr>)"
    using cfg unfolding read_table_pre_check_def
    by (auto simp add: p c l Let_def at_line_end_def)
  have le: "\<And>adv. last_error (if adv then ?lp1 else lp\<lparr>pos := ?q, last_error := T_MISSING, pos := pos lp\<rparr>) = T_MISSING"
    by simp
  have prim:
    "\<And>mn mx. read_long_limits lp mn mx adv = (False, None, ?lp')"
    "\<And>mn mx. read_ulong_limits lp mn mx adv = (False, None, ?lp')"
    "\<And>mn mx. read_int16_limits lp mn mx adv = (False, None, ?lp')"
    "\<And>mn mx. read_uint16_limits lp mn mx adv = (False, None, ?lp')"
    "read_double L lp adv = (False, None, ?lp')"
    "\<And>mn mx. read_double_limits L lp mn mx adv = (False, None, ?lp')"
    unfolding read_long_limits_def read_ulong_limits_def read_int16_limits_def
      read_uint16_limits_def read_int32_limits_def read_uint32_limits_def read_double_def
      read_double_limits_def
    by (simp_all add: pc)
  have co:
    "read_coords L lp adv = (False, None, restore_pos adv (pos lp) ?lp1)"
    "\<And>mn mx. read_coords_bounds L lp mn mx adv = (False, None, restore_pos adv (pos lp) ?lp1)"
    unfolding read_coords_def read_coords_bounds_def read_double_def read_double_limits_def
    by (simp_all add: pc)
  from a have nstr: "\<not> is_string_op op" "op \<noteq> Skip" by simp_all
  show "\<exists>lp'. read_next L lp op adv = (False, None, lp') \<and> last_error lp' = T_MISSING"
    using nstr
    by (cases op)
      (simp_all add: prim co tagged_def is_string_op_def read_int32_def
        read_uint32_def read_int16_def read_uint16_def read_int64_def read_uint64_def
        read_int32_limits_def read_uint32_limits_def read_int64_limits_def
        read_uint64_limits_def)
next
  assume b: "delim lq = NUL \<and> read_next L lq oq advq = (False, v, lq')"
  then have r: "read_next L lq oq advq = (False, v, lq')" and d: "delim lq = NUL"
    by simp_all
  show "last_error lq' \<noteq> T_MISSING"
  proof (cases "is_string_op oq")
    case True
    with read_next_string_frame [OF r] d show ?thesis
      by (simp add: string_frame_def)
  next
    case False
    show ?thesis
    proof (cases "oq = Skip")
      case True
      with read_next_skip_frame [of L lq advq False v lq'] r d show ?thesis
        by (simp add: read_frame_def)
    next
      case nskip: False
      with read_next_numeric_frame [OF r False] d show ?thesis
        by (simp add: read_frame_def)
    qed
  qed
qed

text \<open>The scenario of the specification: the second field of \<open>1,,3\<close>.\<close>

lemma missing_value_scenario:
  "read L (set_delim (line_parser_of ''1,,3'') (CHR '','')) [UInt32, UInt32, UInt32]
   = (False, [Some (Out32 1), None],
      (set_delim (line_parser_of ''1,,3'') (CHR '',''))
        \<lparr>pos := 2, col := 1, last_error := T_MISSING\<rparr>)"
  by (simp add: eval_defs)

theorem empty_field_is_missing_witness:
  "\<forall>L :: unit libm.
     (\<exists>lp'. read_next L ((set_delim (line_parser_of ''1,,3'') (CHR '',''))\<lparr>pos := 2, col := 1\<rparr>)
              UInt32 True = (False, None, lp') \<and> last_error lp' = T_MISSING)
     \<and> read_next L (line_parser_of ''x'') Int32 True
         = (False, None, (line_parser_of ''x'')\<lparr>last_error := T_FORMAT\<rparr>)
     \<and> last_error ((line_parser_of ''x'')\<lparr>last_error := T_FORMAT\<rparr>) \<noteq> T_MISSING"
proof (intro allI)
  fix L :: "unit libm"
  let ?lp = "(set_delim (line_parser_of ''1,,3'') (CHR '',''))\<lparr>pos := 2, col := 1\<rparr>"
  let ?lq = "line_parser_of ''x''"
  have q: "read_next L ?lq Int32 True = (False, None, ?lq\<lparr>last_error := T_FORMAT\<rparr>)"
    by (simp add: eval_defs)
  have h: "\<not> blocked (last_error ?lp) \<and> delim ?lp \<noteq> NUL
      \<and> buf ?lp = ''1,'' @ [] @ delim ?lp # ''3'' \<and> pos ?lp = length ''1,''
      \<and> (\<forall>b\<in>set []. is_blank b) \<and> \<not> is_blank (delim ?lp) \<and> \<not> is_newline (delim ?lp)
      \<and> comment ?lp \<noteq> delim ?lp \<and> \<not> is_string_op (UInt32 :: unit read_op)
      \<and> (UInt32 :: unit read_op) \<noteq> Skip"
    by (simp add: eval_defs is_string_op_def)
  have d: "delim ?lq = NUL"
    by (simp add: eval_defs)
  from empty_field_is_missing [where lp = ?lp and pre = "''1,''" and bl = "[]"
      and rest = "''3''" and op = UInt32 and adv = True and L = L and lq = ?lq
      and oq = Int32 and advq = True and v = None
      and lq' = "?lq\<lparr>last_error := T_FORMAT\<rparr>"] h d q
  show "(\<exists>lp'. read_next L ?lp UInt32 True = (False, None, lp') \<and> last_error lp' = T_MISSING)
     \<and> read_next L ?lq Int32 True = (False, None, ?lq\<lparr>last_error := T_FORMAT\<rparr>)
     \<and> last_error (?lq\<lparr>last_error := T_FORMAT\<rparr>) \<noteq> T_MISSING"
    by blast
qed

section \<open>The separator after a number\<close>

lemma scan_until_here: "\<not> is_blank (char_at s p) \<Longrightarrow> scan_until not_blank s p = p"
  by (subst scan_until.simps) (auto simp add: char_at_def not_blank_def)

lemma at_line_end_cursor [simp]:
  "at_line_end (lp\<lparr>pos := p\<rparr>) = at_line_end lp"
  "at_line_end (lp\<lparr>last_error := e\<rparr>) = at_line_end lp"
  "at_line_end (lp\<lparr>col := k\<rparr>) = at_line_end lp"
  by (simp_all add: at_line_end_def fun_eq_iff)

lemma post_check_separator:
  assumes "delim lp = NUL" "read_table_post_check lp e c2 = (ok, lp2)"
  shows "(ok \<longrightarrow> at_line_end lp c2 \<or> is_blank (char_at (buf lp) c2))
       \<and> (\<not> at_line_end lp c2 \<and> \<not> is_blank (char_at (buf lp) c2) \<longrightarrow>
            \<not> ok \<and> last_error lp2 = (if c2 \<noteq> pos lp \<and> e = ERANGE then T_OVERFLOW else T_FORMAT))"
proof (cases "is_blank (char_at (buf lp) c2)")
  case True
  then show ?thesis by simp
next
  case False
  then have p: "scan_until not_blank (buf lp) c2 = c2"
    by (rule scan_until_here)
  from assms show ?thesis
    unfolding read_table_post_check_def
    by (auto simp add: p Let_def split: if_splits)
qed

lemma long_via_post_check:
  assumes "read_table_pre_check lp adv = (True, lp1)"
    and "strtol (c_str_from (buf lp1) (pos lp1)) (base lp1) = (res, n, e)"
    and "read_table_post_check lp1 e (pos lp1 + n) = (ok, lp2)"
    and "read_long_limits lp mn mx adv = (ret, v, lp')"
  shows "(ret \<longrightarrow> ok) \<and> (\<not> ok \<longrightarrow> \<not> ret \<and> last_error lp' = last_error lp2)"
  using assms(4) unfolding read_long_limits_def
  by (cases ok) (auto simp add: assms(1-3) Let_def split: if_splits)

lemma ulong_via_post_check:
  assumes "read_table_pre_check lp adv = (True, lp1)"
    and "isalnum (char_at (buf lp1) (pos lp1)) \<or> char_at (buf lp1) (pos lp1) = CHR ''+''"
    and "strtoul (c_str_from (buf lp1) (pos lp1)) (base lp1) = (res, n, e)"
    and "read_table_post_check lp1 e (pos lp1 + n) = (ok, lp2)"
    and "read_ulong_limits lp mn mx adv = (ret, v, lp')"
  shows "(ret \<longrightarrow> ok) \<and> (\<not> ok \<longrightarrow> \<not> ret \<and> last_error lp' = last_error lp2)"
  using assms(5,2) unfolding read_ulong_limits_def
  by (cases ok) (auto simp add: assms(1,3,4) Let_def split: if_splits)

lemma double_via_post_check:
  assumes "read_table_pre_check lp adv = (True, lp1)"
    and "strtod L (c_str_from (buf lp1) (pos lp1)) = (d, n, e)"
    and "read_table_post_check lp1 e (pos lp1 + n) = (ok, lp2)"
  shows "read_double L lp adv = (ret, v, lp') \<Longrightarrow>
           (ret \<longrightarrow> ok) \<and> (\<not> ok \<longrightarrow> \<not> ret \<and> last_error lp' = last_error lp2)"
    and "read_double_limits L lp mn mx adv = (ret, v, lp') \<Longrightarrow>
           (ret \<longrightarrow> ok) \<and> (\<not> ok \<longrightarrow> \<not> ret \<and> last_error lp' = last_error lp2)"
  unfolding read_double_def read_double_limits_def
  by (cases ok; auto simp add: assms Let_def split: if_splits)+

lemma read_next_via_post_check:
  assumes pc: "read_table_pre_check lp adv = (True, lp1)"
    and k: "op_kind op = Some k"
    and u: "k = Unsigned \<longrightarrow>
              isalnum (char_at (buf lp1) (pos lp1)) \<or> char_at (buf lp1) (pos lp1) = CHR ''+''"
    and cv: "conversion L k (c_str_from (buf lp1) (pos lp1)) (base lp1) = (n, e)"
    and po: "read_table_post_check lp1 e (pos lp1 + n) = (ok, lp2)"
    and r: "read_next L lp op adv = (ret, v, lp')"
  shows "(ret \<longrightarrow> ok) \<and> (\<not> ok \<longrightarrow> \<not> ret \<and> last_error lp' = last_error lp2)"
proof (cases k)
  case Signed
  with cv obtain res where st: "strtol (c_str_from (buf lp1) (pos lp1)) (base lp1) = (res, n, e)"
    by (cases "strtol (c_str_from (buf lp1) (pos lp1)) (base lp1)") auto
  note l = long_via_post_check [OF pc st po]
  from k Signed r show ?thesis
    by (cases op)
      (auto simp add: tagged_eq read_int32_def read_int16_def read_int64_def
        read_int32_limits_def read_int64_limits_def read_int16_limits_def
        split: prod.splits dest!: l)
next
  case Unsigned
  with cv obtain res where st: "strtoul (c_str_from (buf lp1) (pos lp1)) (base lp1) = (res, n, e)"
    by (cases "strtoul (c_str_from (buf lp1) (pos lp1)) (base lp1)") auto
  from u Unsigned
  have a: "isalnum (char_at (buf lp1) (pos lp1)) \<or> char_at (buf lp1) (pos lp1) = CHR ''+''"
    by simp
  note l = ulong_via_post_check [OF pc a st po]
  from k Unsigned r show ?thesis
    by (cases op)
      (auto simp add: tagged_eq read_uint32_def read_uint16_def read_uint64_def
        read_uint32_limits_def read_uint64_limits_def read_uint16_limits_def
        split: prod.splits dest!: l)
next
  case Floating
  with cv obtain d where st: "strtod L (c_str_from (buf lp1) (pos lp1)) = (d, n, e)"
    by (cases "strtod L (c_str_from (buf lp1) (pos lp1))") auto
  note l = double_via_post_check [OF pc st po]
  from k Floating r show ?thesis
    by (cases op) (auto simp add: tagged_eq dest!: l)
qed

text \<open>
  C8, as stated, fails when the conversion overflows: the range error is reported before
  the character after the number is looked at, so a number too large for \<open>long\<close> that is
  followed by letters fails with \<open>T_OVERFLOW\<close>, not with \<open>T_FORMAT\<close>.
\<close>

theorem overflow_before_separator_check:
  "read_int32 (line_parser_of ''99999999999999999999abc'') True
   = (False, None, (line_parser_of ''99999999999999999999abc'')\<lparr>last_error := T_OVERFLOW\<rparr>)"
  by (simp add: eval_defs)

text \<open>
  C8, amended. Without a delimiter, take a read of one numeric field that starts at the
  character \<open>c\<close> and whose conversion consumes \<open>n\<close> characters, up to the offset \<open>c2\<close>.
  If the read succeeds, the character at \<open>c2\<close> is the end of the line, a newline, the
  comment character, or a blank. If it is none of these, the read fails: with
  \<open>T_OVERFLOW\<close> when the conversion reported a range error, with \<open>T_FORMAT\<close> otherwise.
\<close>

theorem numeric_read_needs_separator:
  assumes "delim lp = NUL" "\<not> blocked (last_error lp)"
    and "buf lp = pre @ bl @ c # rest" "pos lp = length pre" "\<forall>b\<in>set bl. is_blank b"
    and "\<not> is_blank c" "\<not> is_newline c" "comment lp = NUL \<or> c \<noteq> comment lp"
    and "op_kind op = Some k" "k = Unsigned \<longrightarrow> isalnum c \<or> c = CHR ''+''"
    and "conversion L k (c_str_from (buf lp) (length pre + length bl)) (base lp) = (n, e)"
    and "c2 = length pre + length bl + n"
    and "read_next L lp op adv = (ret, v, lp')"
  shows "(ret \<longrightarrow> at_line_end lp c2 \<or> is_blank (char_at (buf lp) c2))
       \<and> (\<not> at_line_end lp c2 \<and> \<not> is_blank (char_at (buf lp) c2) \<longrightarrow>
            \<not> ret \<and> last_error lp' = (if 0 < n \<and> e = ERANGE then T_OVERFLOW else T_FORMAT))"
proof -
  let ?q = "length pre + length bl"
  let ?lp1 = "lp\<lparr>pos := ?q\<rparr>"
  from assms(1) have dl: "delim lp = NUL \<or> c \<noteq> delim lp"
    by simp
  have pc: "read_table_pre_check lp adv = (True, ?lp1)"
    using assms(2-8) dl by (rule pre_check_field)
  have ch: "char_at (buf ?lp1) (pos ?lp1) = c"
    by (simp add: assms(3) char_at_field)
  obtain ok lp2 where po: "read_table_post_check ?lp1 e (pos ?lp1 + n) = (ok, lp2)"
    by fastforce
  have d1: "delim ?lp1 = NUL"
    using assms(1) by simp
  from post_check_separator [OF d1 po]
  have sep: "(ok \<longrightarrow> at_line_end lp c2 \<or> is_blank (char_at (buf lp) c2))
       \<and> (\<not> at_line_end lp c2 \<and> \<not> is_blank (char_at (buf lp) c2) \<longrightarrow>
            \<not> ok \<and> last_error lp2 = (if 0 < n \<and> e = ERANGE then T_OVERFLOW else T_FORMAT))"
    by (simp add: assms(12))
  have "(ret \<longrightarrow> ok) \<and> (\<not> ok \<longrightarrow> \<not> ret \<and> last_error lp' = last_error lp2)"
    using pc assms(9) _ _ po assms(13)
  proof (rule read_next_via_post_check)
    show "k = Unsigned \<longrightarrow>
            isalnum (char_at (buf ?lp1) (pos ?lp1)) \<or> char_at (buf ?lp1) (pos ?lp1) = CHR ''+''"
      using assms(10) by (simp only: ch)
    show "conversion L k (c_str_from (buf ?lp1) (pos ?lp1)) (base ?lp1) = (n, e)"
      using assms(11) by simp
  qed
  with sep show ?thesis
    by auto
qed

theorem numeric_read_needs_separator_witness:
  "\<forall>L :: unit libm.
     read_next L (line_parser_of ''123abc'') Int32 True
       = (False, None, (line_parser_of ''123abc'')\<lparr>pos := 3, last_error := T_FORMAT\<rparr>)
     \<and> conversion L Signed (c_str_from ''123abc'' 0) 10 = (3, E_NONE)
     \<and> \<not> at_line_end (line_parser_of ''123abc'') 3
     \<and> \<not> is_blank (char_at ''123abc'' 3)
     \<and> last_error ((line_parser_of ''123abc'')\<lparr>pos := 3, last_error := T_FORMAT\<rparr>) = T_FORMAT"
proof (intro allI)
  fix L :: "unit libm"
  let ?lp = "line_parser_of ''123abc''"
  let ?lp' = "?lp\<lparr>pos := 3, last_error := T_FORMAT\<rparr>"
  have r: "read_next L ?lp Int32 True = (False, None, ?lp')"
    by (simp add: eval_defs)
  have cv: "conversion L Signed (c_str_from (buf ?lp) (length ([] :: string) + length ([] :: string))) (base ?lp)
              = (3, E_NONE)"
    by (simp add: eval_defs)
  have sep: "\<not> at_line_end ?lp 3" "\<not> is_blank (char_at ''123abc'' 3)"
    by (simp_all add: eval_defs)
  have "(False \<longrightarrow> at_line_end ?lp 3 \<or> is_blank (char_at (buf ?lp) 3))
       \<and> (\<not> at_line_end ?lp 3 \<and> \<not> is_blank (char_at (buf ?lp) 3) \<longrightarrow>
            \<not> False \<and> last_error ?lp' = (if 0 < (3::nat) \<and> E_NONE = ERANGE then T_OVERFLOW else T_FORMAT))"
  proof (rule numeric_read_needs_separator [where pre = "[]" and bl = "[]" and c = "CHR ''1''"
        and rest = "''23abc''" and k = Signed and L = L and op = Int32 and adv = True
        and v = None])
    show "delim ?lp = NUL" "\<not> blocked (last_error ?lp)" "buf ?lp = [] @ [] @ CHR ''1'' # ''23abc''"
      "pos ?lp = length ([] :: string)" "\<forall>b\<in>set []. is_blank b" "\<not> is_blank CHR ''1''"
      "\<not> is_newline CHR ''1''" "comment ?lp = NUL \<or> CHR ''1'' \<noteq> comment ?lp"
      "op_kind (Int32 :: unit read_op) = Some Signed"
      "Signed = Unsigned \<longrightarrow> isalnum CHR ''1'' \<or> CHR ''1'' = CHR ''+''"
      "3 = length ([] :: string) + length ([] :: string) + (3 :: nat)"
      by (simp_all add: eval_defs)
    show "conversion L Signed (c_str_from (buf ?lp) (length ([] :: string) + length ([] :: string))) (base ?lp)
              = (3, E_NONE)"
      by (rule cv)
    show "read_next L ?lp Int32 True = (False, None, ?lp')"
      by (rule r)
  qed
  with r sep
  show "read_next L ?lp Int32 True = (False, None, ?lp')
     \<and> conversion L Signed (c_str_from ''123abc'' 0) 10 = (3, E_NONE)
     \<and> \<not> at_line_end ?lp 3
     \<and> \<not> is_blank (char_at ''123abc'' 3)
     \<and> last_error ?lp' = T_FORMAT"
    using cv by (simp add: line_parser_of_def)
qed

section \<open>Bounded integer reads\<close>
















lemma field_terminated_cursor [simp]:
  "field_terminated (lp\<lparr>pos := p\<rparr>) = field_terminated lp"
  by (simp add: field_terminated_def fun_eq_iff)














text \<open>
  Nor is the output set when the field does not fit \<open>long\<close>: the post-check fails first.
\<close>

lemma overflowing_long_leaves_output:
  "read_int64_limits (line_parser_of ''9223372036854775808'') 0 100 True
   = (False, None, (line_parser_of ''9223372036854775808'')\<lparr>last_error := T_OVERFLOW\<rparr>)"
  by (simp add: eval_defs)



section \<open>The variadic read\<close>

lemma read_append:
  "read L lp (ops1 @ ops2) =
     (case read L lp ops1 of
        (False, vs, lp1) \<Rightarrow> (False, vs, lp1)
      | (True, vs, lp1) \<Rightarrow> (case read L lp1 ops2 of (ret, ws, lp2) \<Rightarrow> (ret, vs @ ws, lp2)))"
proof (induction ops1 arbitrary: lp)
  case Nil
  show ?case by (simp split: prod.splits)
next
  case (Cons val vals)
  show ?case
    by (simp add: Cons.IH split: prod.splits bool.splits)
qed

lemma read_stops_at_first_failure:
  assumes "read L lp ops1 = (True, vs, lp1)" "read_next L lp1 val True = (False, v, lp2)"
  shows "read L lp (ops1 @ val # ops2) = (False, vs @ [v], lp2)"
  using assms by (simp add: read_append)

lemma read_all_succeed:
  assumes "read L lp ops1 = (True, vs, lp1)" "read L lp1 ops2 = (True, ws, lp2)"
  shows "read L lp (ops1 @ ops2) = (True, vs @ ws, lp2)"
  using assms by (simp add: read_append)

lemma read_outputs:
  "read L lp ops = (ret, vs, lp') \<Longrightarrow>
     (if ret then length vs = length ops else 0 < length vs \<and> length vs \<le> length ops)"
proof (induction ops arbitrary: lp ret vs lp')
  case Nil
  then show ?case by auto
next
  case (Cons val vals)
  obtain r v lp1 where n: "read_next L lp val True = (r, v, lp1)"
    using prod_cases3 by blast
  show ?case
  proof (cases r)
    case False
    with Cons.prems n show ?thesis by auto
  next
    case True
    obtain r2 ws lp2 where t: "read L lp1 vals = (r2, ws, lp2)"
      using prod_cases3 by blast
    from Cons.IH [OF t] Cons.prems n True t show ?thesis
      by (auto split: if_splits)
  qed
qed

lemma read_failure_has_cause:
  assumes "read L lp ops = (False, vs, lp')"
  shows "\<exists>ops1 val ops2 ws v lp1.
           ops = ops1 @ val # ops2 \<and> read L lp ops1 = (True, ws, lp1)
           \<and> read_next L lp1 val True = (False, v, lp') \<and> vs = ws @ [v]"
  using assms
proof (induction ops arbitrary: lp vs)
  case Nil
  then show ?case by simp
next
  case (Cons val vals)
  obtain r v lp1 where n: "read_next L lp val True = (r, v, lp1)"
    using prod_cases3 by blast
  show ?case
  proof (cases r)
    case False
    with Cons.prems n have "val # vals = [] @ val # vals" "read L lp [] = (True, [], lp)"
      "read_next L lp val True = (False, v, lp')" "vs = [] @ [v]"
      by auto
    then show ?thesis by blast
  next
    case True
    obtain r2 ws lp2 where t: "read L lp1 vals = (r2, ws, lp2)"
      using prod_cases3 by blast
    with Cons.prems n True have f: "read L lp1 vals = (False, ws, lp')" and vs: "vs = v # ws"
      by auto
    from Cons.IH [OF f] obtain ops1 val' ops2 us u lq where
      c: "vals = ops1 @ val' # ops2" "read L lp1 ops1 = (True, us, lq)"
         "read_next L lq val' True = (False, u, lp')" "ws = us @ [u]"
      by blast
    from c n True vs have "val # vals = (val # ops1) @ val' # ops2"
      "read L lp (val # ops1) = (True, v # us, lq)"
      "read_next L lq val' True = (False, u, lp')" "vs = (v # us) @ [u]"
      by auto
    then show ?thesis by blast
  qed
qed

text \<open>
  C6. The variadic read applies the operations from left to right, succeeds exactly when
  all of them do, stops at the first that fails and keeps what the earlier ones wrote
  (lemmas \<open>read_append\<close>, \<open>read_stops_at_first_failure\<close>, \<open>read_failure_has_cause\<close>).
  But the column after a successful read of \<open>N\<close> fields is not \<open>N\<close>: the post-check
  returns at the end of the line before it increments the column, so the last number of a
  line is not counted. Two integers read from the line \<open>1 2\<close> leave the column at 1.
\<close>

theorem column_after_last_field:
  "read L (line_parser_of ''1 2'') [Int32, Int32]
   = (True, [Some (Out32 1), Some (Out32 2)], (line_parser_of ''1 2'')\<lparr>pos := 3, col := 1\<rparr>)"
  by (simp add: eval_defs)

text \<open>
  A string read never increments the column, and a skip increments it at the end of the
  line too.
\<close>

lemma column_ignores_strings:
  "read L (line_parser_of ''ab cd'') [String, String]
   = (True, [Some (Out_string ''ab''), Some (Out_string ''cd'')],
      (line_parser_of ''ab cd'')\<lparr>pos := 5\<rparr>)"
  by (simp add: eval_defs)

lemma column_counts_last_skip:
  "read L (line_parser_of ''1 2'') [Int32, Skip]
   = (True, [Some (Out32 1), None], (line_parser_of ''1 2'')\<lparr>pos := 3, col := 2\<rparr>)"
  by (simp add: eval_defs)

end
